theory Spec2Isabelle
  imports Complex_Main "HOL-Library.AList" "HOL-Library.Char_ord" "HOL-Library.List_Lexorder"
begin

section \<open>The adventure game: Game Master and Scorer (games/adventuregame/master.py)\<close>

text \<open>
  A shallow embedding of \<^verbatim>\<open>AdventureGameMaster\<close> and \<^verbatim>\<open>AdventureGameScorer\<close>.
  Python values are modelled as follows.
  \<^item> \<^verbatim>\<open>int\<close> is \<open>int\<close>; the result of the true division \<^verbatim>\<open>/\<close> is a \<open>real\<close>
    (the exact quotient; the floating-point rounding of the quotient is not modelled).
  \<^item> \<^verbatim>\<open>str\<close> is \<open>string\<close>; a string is truthy when it is not empty.
  \<^item> A \<^verbatim>\<open>dict\<close> with string keys is an association list in insertion order:
    \<^verbatim>\<open>d[k] = v\<close> is \<open>AList.update k v d\<close>, \<^verbatim>\<open>d[k]\<close> raises \<^verbatim>\<open>KeyError\<close> on a missing key.
  \<^item> An exception is a value of \<open>py_error\<close>; a function that can raise returns
    \<open>py_error + 'a\<close>, with \<open>Inl\<close> for the exception.
\<close>

subsection \<open>Exceptions and dictionaries\<close>

datatype py_error = KeyError string | ZeroDivisionError | IndexError

definition bind :: "py_error + 'a \<Rightarrow> ('a \<Rightarrow> py_error + 'b) \<Rightarrow> py_error + 'b" where
  "bind m f = (case m of Inl e \<Rightarrow> Inl e | Inr v \<Rightarrow> f v)"

type_synonym 'v dict = "(string \<times> 'v) list"

text \<open>\<^verbatim>\<open>d[k]\<close>\<close>

definition getitem :: "'v dict \<Rightarrow> string \<Rightarrow> py_error + 'v" where
  "getitem d k = (case map_of d k of None \<Rightarrow> Inl (KeyError k) | Some v \<Rightarrow> Inr v)"

text \<open>\<^verbatim>\<open>sum([turn[k] for turn in turns])\<close>\<close>

fun sum_key :: "int dict list \<Rightarrow> string \<Rightarrow> py_error + int" where
  "sum_key [] k = Inr 0"
| "sum_key (d # ds) k = bind (getitem d k) (\<lambda>v. bind (sum_key ds k) (\<lambda>s. Inr (v + s)))"

text \<open>\<^verbatim>\<open>a / b\<close> on integers\<close>

definition true_div :: "int \<Rightarrow> int \<Rightarrow> py_error + real" where
  "true_div a b = (if b = 0 then Inl ZeroDivisionError else Inr (real_of_int a / real_of_int b))"

subsection \<open>The interaction log\<close>

text \<open>
  The content of an \<^verbatim>\<open>adventure_info\<close> event, as \<^verbatim>\<open>_on_setup\<close> builds it.
\<close>

record adventure_info_dict =
  variant :: string
  max_turns :: int
  optimal_turns :: int
  goal_count :: int

text \<open>
  \<^verbatim>\<open>event["action"]\<close>: a type and a content. The constructors are the event types the
  Game Master writes with \<^verbatim>\<open>log_to_self\<close>, with the fields of the content the Scorer
  reads; \<open>Message\<close> stands for the text events of \<^verbatim>\<open>log_message_to_self\<close> and
  \<open>Other_action\<close> for every other event type (the Scorer ignores both).
\<close>

datatype action =
    Adventure_info adventure_info_dict
  | Invalid_format string
  | Action_fail string string
  | Turn_limit_reached int
  | Goal_status "string list" int
  | Game_result "string list" bool
  | Adventure_finished "string list"
  | Message string
  | Other_action string

subsection \<open>The scores the Scorer logs\<close>

text \<open>
  The names of the framework's standard metrics (\<^verbatim>\<open>clemgame.metrics\<close>) are constants
  defined outside the sources; they are kept symbolic. \<open>Name s\<close> is a score logged under
  the string \<open>s\<close>.
\<close>

datatype score_name =
    METRIC_ABORTED
  | METRIC_LOSE
  | METRIC_SUCCESS
  | METRIC_REQUEST_COUNT
  | METRIC_REQUEST_COUNT_PARSED
  | METRIC_REQUEST_COUNT_VIOLATED
  | METRIC_REQUEST_SUCCESS
  | BENCH_SCORE
  | Name string

text \<open>A logged value: an integer, a float, or \<^verbatim>\<open>np.nan\<close>.\<close>

datatype score_val = IntV int | FloatV real | NaN

text \<open>
  The local variables of \<^verbatim>\<open>compute_scores\<close>, and the scores logged so far.
  \<open>adventure_info = None\<close> is the empty dictionary the variable starts with; the content
  of a logged \<^verbatim>\<open>adventure_info\<close> event is taken to hold all its keys.
\<close>

record scorer =
  adventure_info :: "adventure_info_dict option"
  turn_scores :: "int dict list"
  turn_fails :: "int dict list"
  invalid_format :: string
  turn_limit_loss :: bool
  successfully_finished :: bool
  final_goals_achieved :: "string list"
  turn_score :: "int dict"
  turn_fail :: "int dict"
  logged_turn_scores :: "(nat \<times> score_name \<times> score_val) list"
  logged_episode_scores :: "(score_name \<times> score_val) list"

text \<open>
  Modelled from the spec: \<^verbatim>\<open>log_turn_score\<close> and \<^verbatim>\<open>log_episode_score\<close> (methods of the
  framework's scorer class, not among the sources) record a metric of a turn and of the
  episode. The model keeps the calls in the order they are made.
\<close>

definition log_turn_score :: "nat \<Rightarrow> score_name \<Rightarrow> score_val \<Rightarrow> scorer \<Rightarrow> scorer" where
  "log_turn_score turn_idx score_name score_value s =
     s\<lparr>logged_turn_scores := logged_turn_scores s @ [(turn_idx, score_name, score_value)]\<rparr>"

definition log_episode_score :: "score_name \<Rightarrow> score_val \<Rightarrow> scorer \<Rightarrow> scorer" where
  "log_episode_score score_name score_value s =
     s\<lparr>logged_episode_scores := logged_episode_scores s @ [(score_name, score_value)]\<rparr>"

text \<open>The values logged for a turn, and for the episode, under a name.\<close>

definition turn_values :: "scorer \<Rightarrow> nat \<Rightarrow> score_name \<Rightarrow> score_val list" where
  "turn_values s turn_idx n =
     map (\<lambda>(i, m, v). v) (filter (\<lambda>(i, m, v). i = turn_idx \<and> m = n) (logged_turn_scores s))"

definition episode_values :: "scorer \<Rightarrow> score_name \<Rightarrow> score_val list" where
  "episode_values s n = map snd (filter (\<lambda>(m, v). m = n) (logged_episode_scores s))"

subsection \<open>The Scorer: the loop over the turns (lines 209 to 277)\<close>

definition fail_types :: "string list" where
  "fail_types = [''parsing'', ''resolution'', ''lark_exception'', ''undefined_action_verb'',
     ''undefined_action'', ''undefined_repr_str'', ''undefined_type'', ''not_room_type'',
     ''no_exit_to'', ''multiple_exits_to'', ''entity_not_accessible'',
     ''multiple_entity_ambiguity'', ''pre_state_mismatch'']"

definition scorer_init :: scorer where
  "scorer_init = \<lparr>adventure_info = None, turn_scores = [], turn_fails = [],
     invalid_format = [], turn_limit_loss = False, successfully_finished = False,
     final_goals_achieved = [], turn_score = [], turn_fail = [],
     logged_turn_scores = [], logged_episode_scores = []\<rparr>"

text \<open>The body of \<^verbatim>\<open>for event in turn\<close>: one event.\<close>

fun on_event :: "action \<Rightarrow> scorer \<Rightarrow> scorer" where
  "on_event (Adventure_info content) s = s\<lparr>adventure_info := Some content\<rparr>"
| "on_event (Invalid_format content) s = s\<lparr>invalid_format := content\<rparr>"
| "on_event (Action_fail phase fail_type) s =
     s\<lparr>turn_fail := AList.update fail_type 1 (AList.update phase 1 (turn_fail s))\<rparr>"
| "on_event (Turn_limit_reached n) s = s\<lparr>turn_limit_loss := True\<rparr>"
| "on_event (Goal_status goals turn_goal_score) s =
     s\<lparr>turn_score := AList.update ''goal_score'' turn_goal_score (turn_score s)\<rparr>"
| "on_event (Game_result goals finished) s =
     s\<lparr>successfully_finished := finished, final_goals_achieved := goals\<rparr>"
| "on_event (Adventure_finished goals) s = s"
| "on_event (Message m) s = s"
| "on_event (Other_action t) s = s"

text \<open>Lines 271 and 272: the flags of \<^verbatim>\<open>fail_types[2:]\<close>.\<close>

fun log_fail_types :: "nat \<Rightarrow> string list \<Rightarrow> scorer \<Rightarrow> py_error + scorer" where
  "log_fail_types turn_idx [] s = Inr s"
| "log_fail_types turn_idx (fail_type # rest) s =
     bind (getitem (turn_fail s) fail_type) (\<lambda>v.
       log_fail_types turn_idx rest (log_turn_score turn_idx (Name fail_type) (IntV v) s))"

text \<open>Lines 258 to 267: the one-hot flags of the two format violations.\<close>

definition log_invalid_format_type :: "nat \<Rightarrow> scorer \<Rightarrow> scorer" where
  "log_invalid_format_type turn_idx s =
     (if invalid_format s = ''command_tag_missing'' then
        log_turn_score turn_idx (Name ''next_actions_missing'') (IntV 0)
          (log_turn_score turn_idx (Name ''command_tag_missing'') (IntV 1) s)
      else if invalid_format s = ''next_actions_missing'' then
        log_turn_score turn_idx (Name ''next_actions_missing'') (IntV 1)
          (log_turn_score turn_idx (Name ''command_tag_missing'') (IntV 0) s)
      else
        log_turn_score turn_idx (Name ''next_actions_missing'') (IntV 0)
          (log_turn_score turn_idx (Name ''command_tag_missing'') (IntV 0) s))"

text \<open>Lines 248 to 253.\<close>

definition set_request_counts :: "scorer \<Rightarrow> scorer" where
  "set_request_counts s =
     (if invalid_format s \<noteq> [] then
        s\<lparr>turn_score := AList.update ''parsed_request_count'' 0
             (AList.update ''violated_request_count'' 1 (turn_score s))\<rparr>
      else
        s\<lparr>turn_score := AList.update ''parsed_request_count'' 1
             (AList.update ''violated_request_count'' 0 (turn_score s))\<rparr>)"

text \<open>Lines 254 to 277: the turn's scores are logged and the turn's dictionaries kept.\<close>

definition log_turn :: "nat \<Rightarrow> scorer \<Rightarrow> py_error + scorer" where
  "log_turn turn_idx s0 =
     bind (getitem (turn_score s0) ''request_count'') (\<lambda>request_count.
     bind (getitem (turn_score s0) ''parsed_request_count'') (\<lambda>parsed.
     bind (getitem (turn_score s0) ''violated_request_count'') (\<lambda>violated.
     bind (getitem (turn_fail s0) ''parsing'') (\<lambda>parsing.
     bind (getitem (turn_fail s0) ''resolution'') (\<lambda>resolution.
     bind (log_fail_types turn_idx (drop 2 fail_types)
            (log_turn_score turn_idx (Name ''action_resolution_fail'') (IntV resolution)
            (log_turn_score turn_idx (Name ''action_parsing_fail'') (IntV parsing)
            (log_invalid_format_type turn_idx
            (log_turn_score turn_idx METRIC_REQUEST_COUNT_VIOLATED (IntV violated)
            (log_turn_score turn_idx METRIC_REQUEST_COUNT_PARSED (IntV parsed)
            (log_turn_score turn_idx METRIC_REQUEST_COUNT (IntV request_count) s0))))))) (\<lambda>s1.
     bind (getitem (turn_score s1) ''goal_score'') (\<lambda>goal_score.
     Inr ((log_turn_score turn_idx (Name ''goal_score'') (IntV goal_score) s1)
           \<lparr>turn_scores := turn_scores s1 @ [turn_score s1],
            turn_fails := turn_fails s1 @ [turn_fail s1]\<rparr>))))))))"

text \<open>One iteration of \<^verbatim>\<open>for turn_idx, turn in enumerate(...)\<close>.\<close>

definition score_turn :: "nat \<Rightarrow> action list \<Rightarrow> scorer \<Rightarrow> py_error + scorer" where
  "score_turn turn_idx turn s =
     log_turn turn_idx (set_request_counts (fold on_event turn
       (s\<lparr>turn_score := [(''request_count'', 1)],
          turn_fail := map (\<lambda>fail_type. (fail_type, 0)) fail_types\<rparr>)))"

fun score_turns :: "nat \<Rightarrow> action list list \<Rightarrow> scorer \<Rightarrow> py_error + scorer" where
  "score_turns turn_idx [] s = Inr s"
| "score_turns turn_idx (turn # rest) s =
     bind (score_turn turn_idx turn s) (score_turns (Suc turn_idx) rest)"

subsection \<open>The Scorer: the episode scores (lines 279 to 368)\<close>

text \<open>Lines 298 to 300: the totals of \<^verbatim>\<open>fail_types[2:]\<close>.\<close>

fun log_fail_counts :: "string list \<Rightarrow> scorer \<Rightarrow> py_error + scorer" where
  "log_fail_counts [] s = Inr s"
| "log_fail_counts (fail_type # rest) s =
     bind (sum_key (turn_fails s) fail_type) (\<lambda>type_fail_count.
       log_fail_counts rest (log_episode_score (Name fail_type) (IntV type_fail_count) s))"

text \<open>Lines 279 to 306: request totals, failure totals and the turn limit.\<close>

definition score_requests :: "scorer \<Rightarrow> py_error + scorer" where
  "score_requests s0 =
     bind (sum_key (turn_scores s0) ''violated_request_count'') (\<lambda>violated_request_count.
     bind (sum_key (turn_scores s0) ''parsed_request_count'') (\<lambda>parsed_request_count.
     bind (sum_key (turn_scores s0) ''request_count'') (\<lambda>request_count.
     bind (true_div parsed_request_count request_count) (\<lambda>request_success.
     bind (sum_key (turn_fails s0) ''parsing'') (\<lambda>action_parsing_fail_count.
     bind (sum_key (turn_fails s0) ''resolution'') (\<lambda>action_resolution_fail_count.
     bind (log_fail_counts (drop 2 fail_types)
            (log_episode_score (Name ''action_resolution_fail'') (IntV action_resolution_fail_count)
            (log_episode_score (Name ''action_parsing_fail'') (IntV action_parsing_fail_count)
            (log_episode_score METRIC_REQUEST_SUCCESS (FloatV request_success)
            (log_episode_score METRIC_REQUEST_COUNT (IntV request_count)
            (log_episode_score METRIC_REQUEST_COUNT_PARSED (IntV parsed_request_count)
            (log_episode_score METRIC_REQUEST_COUNT_VIOLATED (IntV violated_request_count)
               s0))))))) (\<lambda>s1.
     Inr (log_episode_score (Name ''turn_limit_loss'')
            (IntV (if turn_limit_loss s1 then 1 else 0)) s1))))))))"

text \<open>
  Lines 308 to 368. \<^verbatim>\<open>adventure_info['optimal_turns']\<close> raises \<^verbatim>\<open>KeyError\<close> on the empty
  dictionary; the three divisions are computed whether or not the episode finished.
\<close>

definition score_outcome :: "scorer \<Rightarrow> py_error + scorer" where
  "score_outcome s0 =
     (let turn_count = int (length (turn_scores s0)) in
      case adventure_info s0 of
        None \<Rightarrow> Inl (KeyError ''optimal_turns'')
      | Some info \<Rightarrow>
         (let turns_over_par = turn_count - optimal_turns info;
              s1 = log_episode_score (Name ''turns_over_par'')
                     (if successfully_finished s0 then IntV turns_over_par else NaN) s0;
              turn_range = max_turns info - optimal_turns info
          in
          bind (true_div turns_over_par turn_range) (\<lambda>q.
          let turn_ratio = 1 - q;
              s2 = log_episode_score (Name ''turn_ratio'')
                     (if successfully_finished s1 then FloatV turn_ratio else NaN) s1;
              final_goal_score = int (length (final_goals_achieved s2))
          in
          bind (true_div final_goal_score (goal_count info)) (\<lambda>achieved_ratio.
          let s3 = log_episode_score (Name ''achieved_goal_ratio'') (FloatV achieved_ratio) s2
          in
          bind (true_div final_goal_score (int (length (turn_scores s3)))) (\<lambda>goal_rating.
          let full_rating = achieved_ratio * turn_ratio;
              s4 = log_episode_score BENCH_SCORE
                     (if successfully_finished s3 then FloatV full_rating else NaN) s3;
              s5 = log_episode_score METRIC_ABORTED
                     (IntV (if invalid_format s4 \<noteq> [] then 1 else 0)) s4
          in
          Inr (if successfully_finished s5 then
                 log_episode_score METRIC_LOSE (IntV 0)
                   (log_episode_score METRIC_SUCCESS (IntV 1) s5)
               else
                 log_episode_score METRIC_LOSE (IntV 1)
                   (log_episode_score METRIC_SUCCESS (IntV 0) s5)))))))"

text \<open>\<^verbatim>\<open>compute_scores(episode_interactions)\<close> on \<^verbatim>\<open>episode_interactions["turns"]\<close>.\<close>

definition compute_scores :: "action list list \<Rightarrow> py_error + scorer" where
  "compute_scores turns =
     bind (score_turns 0 turns scorer_init) (\<lambda>s.
     bind (score_requests s) score_outcome)"


subsection \<open>The Game Master (lines 20 to 200)\<close>

text \<open>Python's string operations, as far as the Game Master uses them.\<close>

definition startswith :: "string \<Rightarrow> string \<Rightarrow> bool" where
  "startswith s pre = (take (length pre) s = pre)"

text \<open>\<^verbatim>\<open>sub in s\<close>\<close>

fun contains :: "string \<Rightarrow> string \<Rightarrow> bool" where
  "contains [] sub = (sub = [])"
| "contains (c # cs) sub = (startswith (c # cs) sub \<or> contains cs sub)"

text \<open>\<^verbatim>\<open>s.split(sep)\<close> for a separator that is not empty; \<open>cur\<close> is the piece being read, reversed.\<close>

fun split_from :: "string \<Rightarrow> string \<Rightarrow> string \<Rightarrow> string list" where
  "split_from sep cur [] = [rev cur]"
| "split_from sep cur (c # cs) =
     (if sep \<noteq> [] \<and> startswith (c # cs) sep
      then rev cur # split_from sep [] (drop (length sep - 1) cs)
      else split_from sep (c # cur) cs)"

definition split :: "string \<Rightarrow> string \<Rightarrow> string list" where
  "split s sep = split_from sep [] s"

text \<open>\<^verbatim>\<open>s.strip()\<close>, on the ASCII white space.\<close>

definition isspace :: "char \<Rightarrow> bool" where
  "isspace c = (c \<in> set [CHR '' '', CHR 0x09, CHR 0x0A, CHR 0x0B, CHR 0x0C, CHR 0x0D,
                           CHR 0x1C, CHR 0x1D, CHR 0x1E, CHR 0x1F])"

definition strip :: "string \<Rightarrow> string" where
  "strip s = rev (dropWhile isspace (rev (dropWhile isspace s)))"

definition command_tag :: string where
  "command_tag = ''>''"

definition next_actions_tag :: string where
  "next_actions_tag = CHR 0x0A # ''Next actions:''"

text \<open>The keys of \<^verbatim>\<open>game_instance\<close> the Game Master reads.\<close>

record game_instance =
  instance_variant :: string
  instance_max_turns :: int
  instance_optimal_turns :: int
  instance_goal_state :: "string list"
  instance_prompt :: string

datatype player = Player string

text \<open>
  The attributes of the Game Master. \<open>self_messages\<close> is the player's message history
  (role and content), \<open>self_interactions\<close> the interaction log, one list of events per
  turn, \<open>self_keys\<close> what \<^verbatim>\<open>log_key\<close> stored, and \<open>self_if_interpreter\<close> the state of the
  world interpreter, of a type \<open>'i\<close> the Game Master does not look into.
\<close>

record 'i master =
  self_turns :: "bool list"
  self_success :: bool
  self_invalid_format :: string
  self_finished :: bool
  self_game_instance :: game_instance
  self_if_variant :: string
  self_if_interpreter :: 'i
  self_player :: player
  self_plan_history :: "string list"
  self_goals_required :: "string set"
  self_goals_required_cnt :: int
  self_goals_achieved :: "string set"
  self_messages :: "(string \<times> string) list"
  self_keys :: "(string \<times> adventure_info_dict) list"
  self_interactions :: "action list list"

text \<open>
  Modelled from the spec: the interaction log and the message history (the recorder and
  the message store of the framework, \<^verbatim>\<open>log_next_turn\<close>, \<^verbatim>\<open>log_to_self\<close>,
  \<^verbatim>\<open>log_message_to_self\<close> and \<^verbatim>\<open>add_user_message\<close>, are not among the sources). The
  log is an append-only, turn-indexed sequence of typed events: an event is appended to the
  record of the current turn, which \<^verbatim>\<open>log_next_turn\<close> opens; an event logged before any
  turn is opened starts the first record.
\<close>

definition log_next_turn :: "'i master \<Rightarrow> 'i master" where
  "log_next_turn m = m\<lparr>self_interactions := self_interactions m @ [[]]\<rparr>"

definition log_event :: "action \<Rightarrow> 'i master \<Rightarrow> 'i master" where
  "log_event a m =
     m\<lparr>self_interactions :=
         (if self_interactions m = [] then [[a]]
          else butlast (self_interactions m) @ [last (self_interactions m) @ [a]])\<rparr>"

definition add_message :: "string \<Rightarrow> string \<Rightarrow> 'i master \<Rightarrow> 'i master" where
  "add_message role content m = m\<lparr>self_messages := self_messages m @ [(role, content)]\<rparr>"

text \<open>
  \<^verbatim>\<open>list(s)\<close> of a set enumerates it in an order Python does not fix: the sorted one is
  taken. The Scorer reads only the length of such a list.
\<close>

definition list_of :: "string set \<Rightarrow> string list" where
  "list_of goals = sorted_list_of_set goals"

text \<open>
  \<^verbatim>\<open>__init__\<close> followed by \<^verbatim>\<open>_on_setup\<close>. \<^verbatim>\<open>log_key\<close> stores the dictionary under a
  key of the episode record (\<open>self_keys\<close>), not as an event of a turn.
\<close>

definition on_setup :: "string \<Rightarrow> 'i \<Rightarrow> game_instance \<Rightarrow> 'i master" where
  "on_setup player_model interpreter instance =
     \<lparr>self_turns = [], self_success = True, self_invalid_format = [], self_finished = False,
      self_game_instance = instance,
      self_if_variant = instance_variant instance,
      self_if_interpreter = interpreter,
      self_player = Player player_model,
      self_plan_history = [],
      self_goals_required = set (instance_goal_state instance),
      self_goals_required_cnt = int (card (set (instance_goal_state instance))),
      self_goals_achieved = {},
      self_messages = [],
      self_keys = [(''adventure_info'',
         \<lparr>variant = instance_variant instance, max_turns = instance_max_turns instance,
          optimal_turns = instance_optimal_turns instance,
          goal_count = int (card (set (instance_goal_state instance)))\<rparr>)],
      self_interactions = []\<rparr>"

definition on_before_game :: "string \<Rightarrow> 'i master \<Rightarrow> 'i master" where
  "on_before_game initial_room_desc m =
     add_message ''user'' (instance_prompt (self_game_instance m) @ initial_room_desc) m"

definition validate_player_response :: "'i master \<Rightarrow> player \<Rightarrow> string \<Rightarrow> bool \<times> 'i master" where
  "validate_player_response m p utterance =
     (if p = self_player m then
        if \<not> startswith utterance command_tag then
          (False, m\<lparr>self_success := False, self_invalid_format := ''command_tag_missing''\<rparr>)
        else if self_if_variant m = ''plan'' then
          if \<not> contains utterance next_actions_tag then
            (False, m\<lparr>self_success := False, self_invalid_format := ''next_actions_missing''\<rparr>)
          else (True, m)
        else (True, m)
      else (True, m))"

text \<open>\<^verbatim>\<open>utterance.split(...)[1]\<close> raises \<^verbatim>\<open>IndexError\<close> when the tag is not in the utterance.\<close>

definition on_parse_response ::
  "'i master \<Rightarrow> player \<Rightarrow> string \<Rightarrow> py_error + ((string \<times> bool) \<times> 'i master)" where
  "on_parse_response m p utterance =
     (if self_if_variant m = ''plan'' then
        (case split utterance next_actions_tag of
           first # new_plan # rest \<Rightarrow>
             Inr ((utterance, True), m\<lparr>self_plan_history := self_plan_history m @ [new_plan]\<rparr>)
         | _ \<Rightarrow> Inl IndexError)
      else Inr ((utterance, True), m))"

definition does_game_proceed :: "'i master \<Rightarrow> bool \<times> 'i master" where
  "does_game_proceed m =
     (if self_invalid_format m \<noteq> [] then
        (False, log_event (Invalid_format (self_invalid_format m)) m)
      else if self_goals_achieved m = self_goals_required m then
        (False, log_event (Adventure_finished (list_of (self_goals_achieved m)))
                  (m\<lparr>self_finished := True\<rparr>))
      else if int (length (self_turns m)) \<ge> instance_max_turns (self_game_instance m) then
        (False, log_event (Turn_limit_reached (instance_max_turns (self_game_instance m))) m)
      else (True, m))"

text \<open>
  \<^verbatim>\<open>_on_after_turn\<close>. \<open>process_action\<close> is the interpreter's method: from the interpreter's
  state and the command to the goals achieved, the response, the failure if any (its
  phase and its type), and the interpreter's next state. The text of the two message
  events is left out.
\<close>

definition on_after_turn ::
  "('i \<Rightarrow> string \<Rightarrow> (string set \<times> string \<times> (string \<times> string) option) \<times> 'i) \<Rightarrow>
   'i master \<Rightarrow> py_error + 'i master" where
  "on_after_turn process_action m0 =
     (case does_game_proceed m0 of
        (False, m1) \<Rightarrow> Inr m1
      | (True, m1) \<Rightarrow>
          if self_messages m1 = [] then Inl IndexError
          else
            (let last_action = snd (last (self_messages m1));
                 if_input = strip (case split (drop 1 last_action) [CHR 0x0A] of
                                     [] \<Rightarrow> [] | first_line # rest \<Rightarrow> first_line);
                 prior_goal_count = int (card (self_goals_achieved m1));
                 ((goals_achieved, if_response, fail), interpreter) =
                    process_action (self_if_interpreter m1) if_input;
                 m2 = m1\<lparr>self_if_interpreter := interpreter\<rparr>;
                 m3 = (case fail of
                         None \<Rightarrow> m2
                       | Some (phase, fail_type) \<Rightarrow>
                           log_event (Message ''action_fail'')
                             (log_event (Action_fail phase fail_type) m2));
                 m4 = m3\<lparr>self_goals_achieved := goals_achieved\<rparr>;
                 post_goal_count = int (card (self_goals_achieved m4));
                 turn_score = post_goal_count - prior_goal_count;
                 m5 = log_event (Message ''goal_status'')
                        (log_event (Goal_status (list_of (self_goals_achieved m4)) turn_score) m4);
                 m6 = add_message ''user'' if_response m5
             in Inr (m6\<lparr>self_turns := self_turns m6 @ [self_success m6]\<rparr>)))"

definition on_after_game :: "'i master \<Rightarrow> 'i master" where
  "on_after_game m =
     log_event (Game_result (list_of (self_goals_achieved m)) (self_finished m)) m"

text \<open>
  Modelled from the spec: the driver of the turn loop (the framework's play loop, which
  calls the hooks above, is not among the sources). A turn cycle is
  prompt, validate, parse hook, interpreter step; the loop repeats it until the
  continuation check fails and then appends the terminal result. \<open>responses\<close> are the
  player's responses in order; \<open>None\<close> is returned when they run out before the episode
  ends. The events the framework itself logs for a prompt and a response are left out
  (the Scorer ignores them).
\<close>

definition turn_cycle ::
  "('i \<Rightarrow> string \<Rightarrow> (string set \<times> string \<times> (string \<times> string) option) \<times> 'i) \<Rightarrow>
   string \<Rightarrow> 'i master \<Rightarrow> py_error + 'i master" where
  "turn_cycle process_action utterance m0 =
     (case validate_player_response (log_next_turn m0) (self_player m0) utterance of
        (False, m1) \<Rightarrow> on_after_turn process_action m1
      | (True, m1) \<Rightarrow>
          bind (on_parse_response m1 (self_player m1) utterance) (\<lambda>((text, logged), m2).
            on_after_turn process_action (add_message ''assistant'' text m2)))"

text \<open>
  Modelled from the spec: the loop of the episode. The continuation check is made at
  every turn boundary; when it fails the terminal result is appended.
\<close>

fun run_episode ::
  "('i \<Rightarrow> string \<Rightarrow> (string set \<times> string \<times> (string \<times> string) option) \<times> 'i) \<Rightarrow>
   string list \<Rightarrow> 'i master \<Rightarrow> (py_error + 'i master) option" where
  "run_episode process_action responses m0 =
     (case does_game_proceed m0 of
        (False, m1) \<Rightarrow> Some (Inr (on_after_game m1))
      | (True, m1) \<Rightarrow>
          (case responses of
             [] \<Rightarrow> None
           | utterance # rest \<Rightarrow>
               (case turn_cycle process_action utterance m1 of
                  Inl e \<Rightarrow> Some (Inl e)
                | Inr m2 \<Rightarrow> run_episode process_action rest m2)))"

declare run_episode.simps [simp del]

subsection \<open>Reading the log\<close>

text \<open>
  The contents of the events of each type in a list of events, in order, and what the
  Scorer reads of a whole log: the latest \<^verbatim>\<open>adventure_info\<close>, the terminal state and the
  final goals of the latest \<^verbatim>\<open>game_result\<close> event, and whether a \<^verbatim>\<open>goal_status\<close> or
  an \<^verbatim>\<open>invalid_format\<close> event occurs.
\<close>

definition adventure_infos :: "action list \<Rightarrow> adventure_info_dict list" where
  "adventure_infos es = concat (map (\<lambda>e. case e of Adventure_info c \<Rightarrow> [c] | _ \<Rightarrow> []) es)"

definition invalid_formats :: "action list \<Rightarrow> string list" where
  "invalid_formats es = concat (map (\<lambda>e. case e of Invalid_format c \<Rightarrow> [c] | _ \<Rightarrow> []) es)"

definition action_fails :: "action list \<Rightarrow> (string \<times> string) list" where
  "action_fails es = concat (map (\<lambda>e. case e of Action_fail p t \<Rightarrow> [(p, t)] | _ \<Rightarrow> []) es)"

definition turn_limit_events :: "action list \<Rightarrow> int list" where
  "turn_limit_events es = concat (map (\<lambda>e. case e of Turn_limit_reached n \<Rightarrow> [n] | _ \<Rightarrow> []) es)"

definition goal_scores :: "action list \<Rightarrow> int list" where
  "goal_scores es = concat (map (\<lambda>e. case e of Goal_status g n \<Rightarrow> [n] | _ \<Rightarrow> []) es)"

definition game_results :: "action list \<Rightarrow> (string list \<times> bool) list" where
  "game_results es = concat (map (\<lambda>e. case e of Game_result g f \<Rightarrow> [(g, f)] | _ \<Rightarrow> []) es)"

definition has_goal_status :: "action list \<Rightarrow> bool" where
  "has_goal_status turn = (goal_scores turn \<noteq> [])"

definition logged_info :: "action list list \<Rightarrow> adventure_info_dict option" where
  "logged_info turns =
     (if adventure_infos (concat turns) = [] then None
      else Some (last (adventure_infos (concat turns))))"

definition finished_successfully :: "action list list \<Rightarrow> bool" where
  "finished_successfully turns =
     (game_results (concat turns) \<noteq> [] \<and> snd (last (game_results (concat turns))))"

definition final_goals :: "action list list \<Rightarrow> string list" where
  "final_goals turns =
     (if game_results (concat turns) = [] then [] else fst (last (game_results (concat turns))))"

text \<open>
  \<open>marker m es\<close> is the invalid-format marker after the events \<open>es\<close>, from the marker
  \<open>m\<close> before them; \<open>turn_marker turns t\<close> is the marker at the end of turn \<open>t\<close>, and
  \<open>violation_recorded turns t\<close> says that an \<^verbatim>\<open>invalid_format\<close> event occurs up to and
  including turn \<open>t\<close>. \<open>failed_kinds\<close> are the phases and types of the \<^verbatim>\<open>action_fail\<close>
  events of a turn, and \<open>fail_flag_names\<close> the names under which the flags of
  \<open>fail_types\<close> are logged, in the order of \<open>fail_types\<close>.
\<close>

definition marker :: "string \<Rightarrow> action list \<Rightarrow> string" where
  "marker m es = (if invalid_formats es = [] then m else last (invalid_formats es))"

definition turn_marker :: "action list list \<Rightarrow> nat \<Rightarrow> string" where
  "turn_marker turns t = marker [] (concat (take (Suc t) turns))"

definition violation_recorded :: "action list list \<Rightarrow> nat \<Rightarrow> bool" where
  "violation_recorded turns t = (invalid_formats (concat (take (Suc t) turns)) \<noteq> [])"

definition failed_kinds :: "action list \<Rightarrow> string set" where
  "failed_kinds turn = fst ` set (action_fails turn) \<union> snd ` set (action_fails turn)"

definition fail_flag_names :: "score_name list" where
  "fail_flag_names =
     [Name ''action_parsing_fail'', Name ''action_resolution_fail''] @ map Name (drop 2 fail_types)"

text \<open>
  \<open>append_event e turns\<close> appends an event to the last turn of a log, and
  \<open>logged_scores\<close> is what \<open>compute_scores\<close> leaves: the scores logged, or the exception.
\<close>

definition append_event :: "action \<Rightarrow> action list list \<Rightarrow> action list list" where
  "append_event e turns = butlast turns @ [last turns @ [e]]"

definition logged_scores ::
  "action list list \<Rightarrow> py_error + ((nat \<times> score_name \<times> score_val) list \<times> (score_name \<times> score_val) list)" where
  "logged_scores turns =
     bind (compute_scores turns) (\<lambda>s. Inr (logged_turn_scores s, logged_episode_scores s))"

subsection \<open>The loop of the Scorer in closed form\<close>

text \<open>
  The dictionaries of a turn, the scores logged for a turn and for the episode, and the
  state of the Scorer after a turn and after all turns, as functions of the log. The
  lemmas of the next section show that the loop computes them.
\<close>

definition record_fail :: "string \<times> string \<Rightarrow> int dict \<Rightarrow> int dict" where
  "record_fail pf d = AList.update (snd pf) 1 (AList.update (fst pf) 1 d)"

definition flag :: "int dict \<Rightarrow> string \<Rightarrow> int" where
  "flag d k = (case map_of d k of None \<Rightarrow> 0 | Some v \<Rightarrow> v)"

definition turn_fail_of :: "action list \<Rightarrow> int dict" where
  "turn_fail_of turn = fold record_fail (action_fails turn) (map (\<lambda>fail_type. (fail_type, 0)) fail_types)"

definition turn_score_of :: "string \<Rightarrow> int \<Rightarrow> int dict" where
  "turn_score_of m g = [(''request_count'', 1), (''goal_score'', g),
     (''violated_request_count'', if m = [] then 0 else 1),
     (''parsed_request_count'', if m = [] then 1 else 0)]"

definition turn_rows :: "nat \<Rightarrow> string \<Rightarrow> int dict \<Rightarrow> int \<Rightarrow> (nat \<times> score_name \<times> score_val) list" where
  "turn_rows idx m tf g =
     [(idx, METRIC_REQUEST_COUNT, IntV 1),
      (idx, METRIC_REQUEST_COUNT_PARSED, IntV (if m = [] then 1 else 0)),
      (idx, METRIC_REQUEST_COUNT_VIOLATED, IntV (if m = [] then 0 else 1)),
      (idx, Name ''command_tag_missing'', IntV (if m = ''command_tag_missing'' then 1 else 0)),
      (idx, Name ''next_actions_missing'', IntV (if m = ''next_actions_missing'' then 1 else 0)),
      (idx, Name ''action_parsing_fail'', IntV (flag tf ''parsing'')),
      (idx, Name ''action_resolution_fail'', IntV (flag tf ''resolution''))]
     @ map (\<lambda>k. (idx, Name k, IntV (flag tf k))) (drop 2 fail_types)
     @ [(idx, Name ''goal_score'', IntV g)]"

definition after_turn :: "nat \<Rightarrow> action list \<Rightarrow> scorer \<Rightarrow> scorer" where
  "after_turn idx turn s =
     (let m = marker (invalid_format s) turn; g = last (goal_scores turn) in
      s\<lparr>adventure_info := (if adventure_infos turn = [] then adventure_info s else Some (last (adventure_infos turn))),
        invalid_format := m,
        turn_limit_loss := (turn_limit_loss s \<or> turn_limit_events turn \<noteq> []),
        successfully_finished := (if game_results turn = [] then successfully_finished s else snd (last (game_results turn))),
        final_goals_achieved := (if game_results turn = [] then final_goals_achieved s else fst (last (game_results turn))),
        turn_score := turn_score_of m g,
        turn_fail := turn_fail_of turn,
        turn_scores := turn_scores s @ [turn_score_of m g],
        turn_fails := turn_fails s @ [turn_fail_of turn],
        logged_turn_scores := logged_turn_scores s @ turn_rows idx m (turn_fail_of turn) g\<rparr>)"

definition before_log :: "action list \<Rightarrow> scorer \<Rightarrow> scorer" where
  "before_log turn s =
     (let m = marker (invalid_format s) turn in
      s\<lparr>adventure_info := (if adventure_infos turn = [] then adventure_info s else Some (last (adventure_infos turn))),
        invalid_format := m,
        turn_limit_loss := (turn_limit_loss s \<or> turn_limit_events turn \<noteq> []),
        successfully_finished := (if game_results turn = [] then successfully_finished s else snd (last (game_results turn))),
        final_goals_achieved := (if game_results turn = [] then final_goals_achieved s else fst (last (game_results turn))),
        turn_score := (if goal_scores turn = [] then [(''request_count'', 1)]
                       else [(''request_count'', 1), (''goal_score'', last (goal_scores turn))])
                      @ [(''violated_request_count'', if m = [] then 0 else 1),
                         (''parsed_request_count'', if m = [] then 1 else 0)],
        turn_fail := turn_fail_of turn\<rparr>)"

fun after_turns :: "nat \<Rightarrow> action list list \<Rightarrow> scorer \<Rightarrow> scorer" where
  "after_turns idx [] s = s"
| "after_turns idx (turn # rest) s = after_turns (Suc idx) rest (after_turn idx turn s)"

fun all_rows :: "nat \<Rightarrow> string \<Rightarrow> action list list \<Rightarrow> (nat \<times> score_name \<times> score_val) list" where
  "all_rows idx m [] = []"
| "all_rows idx m (turn # rest) =
     turn_rows idx (marker m turn) (turn_fail_of turn) (last (goal_scores turn))
     @ all_rows (Suc idx) (marker m turn) rest"

fun all_turn_scores :: "string \<Rightarrow> action list list \<Rightarrow> int dict list" where
  "all_turn_scores m [] = []"
| "all_turn_scores m (turn # rest) =
     turn_score_of (marker m turn) (last (goal_scores turn)) # all_turn_scores (marker m turn) rest"

definition total :: "int dict list \<Rightarrow> string \<Rightarrow> int" where
  "total ds k = sum_list (map (\<lambda>d. flag d k) ds)"

definition request_rows :: "int dict list \<Rightarrow> int dict list \<Rightarrow> bool \<Rightarrow> (score_name \<times> score_val) list" where
  "request_rows tss tfs tll =
     [(METRIC_REQUEST_COUNT_VIOLATED, IntV (total tss ''violated_request_count'')),
      (METRIC_REQUEST_COUNT_PARSED, IntV (total tss ''parsed_request_count'')),
      (METRIC_REQUEST_COUNT, IntV (total tss ''request_count'')),
      (METRIC_REQUEST_SUCCESS, FloatV (real_of_int (total tss ''parsed_request_count'')
                                        / real_of_int (total tss ''request_count''))),
      (Name ''action_parsing_fail'', IntV (total tfs ''parsing'')),
      (Name ''action_resolution_fail'', IntV (total tfs ''resolution''))]
     @ map (\<lambda>k. (Name k, IntV (total tfs k))) (drop 2 fail_types)
     @ [(Name ''turn_limit_loss'', IntV (if tll then 1 else 0))]"

definition outcome_rows :: "adventure_info_dict \<Rightarrow> int \<Rightarrow> bool \<Rightarrow> int \<Rightarrow> string \<Rightarrow> (score_name \<times> score_val) list" where
  "outcome_rows info turn_count finished final_goal_score m =
     [(Name ''turns_over_par'', if finished then IntV (turn_count - optimal_turns info) else NaN),
      (Name ''turn_ratio'',
         if finished then FloatV (1 - real_of_int (turn_count - optimal_turns info)
                                       / real_of_int (max_turns info - optimal_turns info)) else NaN),
      (Name ''achieved_goal_ratio'', FloatV (real_of_int final_goal_score / real_of_int (goal_count info))),
      (BENCH_SCORE,
         if finished then FloatV (real_of_int final_goal_score / real_of_int (goal_count info)
              * (1 - real_of_int (turn_count - optimal_turns info)
                       / real_of_int (max_turns info - optimal_turns info))) else NaN),
      (METRIC_ABORTED, IntV (if m \<noteq> [] then 1 else 0)),
      (METRIC_SUCCESS, IntV (if finished then 1 else 0)),
      (METRIC_LOSE, IntV (if finished then 0 else 1))]"

definition episode_rows :: "adventure_info_dict \<Rightarrow> action list list \<Rightarrow> (score_name \<times> score_val) list" where
  "episode_rows info turns =
     request_rows (all_turn_scores [] turns) (map turn_fail_of turns)
       (turn_limit_events (concat turns) \<noteq> [])
     @ outcome_rows info (int (length turns)) (finished_successfully turns)
         (int (length (final_goals turns))) (marker [] (concat turns))"

subsection \<open>Sample logs and Game Masters\<close>

text \<open>The example of the specification: eight turns, three of four goals, finished.\<close>

definition example_info :: adventure_info_dict where
  "example_info = \<lparr>variant = ''basic'', max_turns = 10, optimal_turns = 6, goal_count = 4\<rparr>"

definition example_log :: "action list list" where
  "example_log =
     [[Adventure_info example_info, Goal_status [''A''] 1],
      [Goal_status [''A''] 0],
      [Action_fail ''parsing'' ''undefined_action_verb'', Goal_status [''A''] 0],
      [Goal_status [''A'', ''B''] 1],
      [Goal_status [''A'', ''B''] 0],
      [Goal_status [''A'', ''B''] 0],
      [Goal_status [''A'', ''B''] 0],
      [Goal_status [''A'', ''B'', ''C''] 1, Game_result [''A'', ''B'', ''C''] True]]"

text \<open>Episodes with max_turns equal to optimal_turns, and an episode stopped by the turn limit.\<close>

definition degenerate_info :: adventure_info_dict where
  "degenerate_info = \<lparr>variant = ''basic'', max_turns = 2, optimal_turns = 2, goal_count = 1\<rparr>"

definition degenerate_unfinished_log :: "action list list" where
  "degenerate_unfinished_log =
     [[Adventure_info degenerate_info, Goal_status [] 0],
      [Goal_status [] 0, Turn_limit_reached 2, Game_result [] False]]"

definition degenerate_finished_log :: "action list list" where
  "degenerate_finished_log =
     [[Adventure_info degenerate_info, Goal_status [] 0],
      [Goal_status [''A''] 1, Adventure_finished [''A''], Game_result [''A''] True]]"

definition short_info :: adventure_info_dict where
  "short_info = \<lparr>variant = ''basic'', max_turns = 2, optimal_turns = 1, goal_count = 4\<rparr>"

definition turn_limit_log :: "action list list" where
  "turn_limit_log =
     [[Adventure_info short_info, Goal_status [''A''] 1],
      [Goal_status [''A'', ''B'', ''C''] 2, Turn_limit_reached 2,
       Game_result [''A'', ''B'', ''C''] False]]"

text \<open>Logs with no game_result event, and the first of them ended by the result of a loss.\<close>

definition no_result_log :: "action list list" where
  "no_result_log = [[Adventure_info short_info, Goal_status [''A''] 1]]"

definition lost_log :: "action list list" where
  "lost_log = [[Adventure_info short_info, Goal_status [''A''] 1, Game_result [] False]]"

definition cut_off_log :: "action list list" where
  "cut_off_log = [[Adventure_info short_info, Goal_status [''A''] 1], [Goal_status [''A''] 0]]"

text \<open>Logs with invalid_format events (hand-written: every turn has its goal_status event).\<close>

definition violation_log :: "action list list" where
  "violation_log =
     [[Adventure_info short_info, Goal_status [] 0],
      [Invalid_format ''command_tag_missing'', Goal_status [] 0, Game_result [] False]]"

definition reset_log :: "action list list" where
  "reset_log =
     [[Adventure_info short_info, Invalid_format ''command_tag_missing'', Goal_status [] 0],
      [Invalid_format [], Goal_status [] 0, Game_result [] False]]"


text \<open>Logs with an interpreter failure.\<close>

definition one_fail_log :: "action list list" where
  "one_fail_log =
     [[Adventure_info short_info, Action_fail ''parsing'' ''undefined_action_verb'',
       Goal_status [] 0, Game_result [] False]]"

definition resolution_fail_log :: "action list list" where
  "resolution_fail_log =
     [[Adventure_info short_info, Goal_status [] 0],
      [Action_fail ''resolution'' ''entity_not_accessible'', Goal_status [] 0,
       Game_result [] False]]"

text \<open>Game Masters after setup, and an interpreter that is never asked.\<close>

definition example_instance :: game_instance where
  "example_instance = \<lparr>instance_variant = ''basic'', instance_max_turns = 10,
     instance_optimal_turns = 6, instance_goal_state = [''A'', ''B''], instance_prompt = ''Play.''\<rparr>"

definition plan_instance :: game_instance where
  "plan_instance = \<lparr>instance_variant = ''plan'', instance_max_turns = 10,
     instance_optimal_turns = 6, instance_goal_state = [''A'', ''B''], instance_prompt = ''Play.''\<rparr>"

definition fresh_master :: "unit master" where
  "fresh_master = on_setup ''player'' () example_instance"

definition plan_master :: "unit master" where
  "plan_master = on_setup ''player'' () plan_instance"

definition won_master :: "unit master" where
  "won_master = fresh_master\<lparr>self_goals_achieved := {''A'', ''B''}\<rparr>"

definition flagged_master :: "unit master" where
  "flagged_master = won_master\<lparr>self_invalid_format := ''command_tag_missing''\<rparr>"

definition late_master :: "unit master" where
  "late_master = fresh_master\<lparr>self_turns := replicate 10 True\<rparr>"

definition no_interpreter :: "unit \<Rightarrow> string \<Rightarrow> (string set \<times> string \<times> (string \<times> string) option) \<times> unit" where
  "no_interpreter i command = (({}, ''Nothing happens.'', None), ())"

section \<open>The Scorer on an arbitrary log\<close>

text \<open>
  The loop over the events of a turn changes each variable on its own: the event loop in
  closed form. Then the logging of a turn, the loop over the turns, and the episode
  scores; \<open>compute_scores_unscored\<close> and \<open>compute_scores_scored\<close> give the result of
  \<open>compute_scores\<close> on every log.
\<close>

lemma fold_on_event:
  "fold on_event es s = s\<lparr>
     adventure_info := (if adventure_infos es = [] then adventure_info s else Some (last (adventure_infos es))),
     invalid_format := (if invalid_formats es = [] then invalid_format s else last (invalid_formats es)),
     turn_limit_loss := (turn_limit_loss s \<or> turn_limit_events es \<noteq> []),
     successfully_finished := (if game_results es = [] then successfully_finished s else snd (last (game_results es))),
     final_goals_achieved := (if game_results es = [] then final_goals_achieved s else fst (last (game_results es))),
     turn_score := (if goal_scores es = [] then turn_score s else AList.update ''goal_score'' (last (goal_scores es)) (turn_score s)),
     turn_fail := fold record_fail (action_fails es) (turn_fail s)\<rparr>"
proof (induction es arbitrary: s)
  case Nil
  show ?case by (simp add: adventure_infos_def invalid_formats_def action_fails_def turn_limit_events_def goal_scores_def game_results_def)
next
  case (Cons e es)
  show ?case
    by (cases e) (simp_all add: Cons.IH adventure_infos_def invalid_formats_def action_fails_def turn_limit_events_def goal_scores_def game_results_def record_fail_def)
qed

lemma log_fail_types_eq:
  "set ks \<subseteq> fst ` set (turn_fail s) \<Longrightarrow>
   log_fail_types idx ks s =
     Inr (s\<lparr>logged_turn_scores := logged_turn_scores s @ map (\<lambda>k. (idx, Name k, IntV (flag (turn_fail s) k))) ks\<rparr>)"
proof (induction ks arbitrary: s)
  case Nil
  show ?case by simp
next
  case (Cons k ks)
  from Cons.prems have "k \<in> fst ` set (turn_fail s)" by simp
  then obtain v where v: "map_of (turn_fail s) k = Some v"
    by (metis domD dom_map_of_conv_image_fst)
  have "set ks \<subseteq> fst ` set (turn_fail (log_turn_score idx (Name k) (IntV v) s))"
    using Cons.prems by (simp add: log_turn_score_def)
  from Cons.IH[OF this] show ?case
    by (simp add: bind_def getitem_def v flag_def log_turn_score_def)
qed

lemma keys_fold_record_fail: "fst ` set d \<subseteq> fst ` set (fold record_fail fs d)"
proof (induction fs arbitrary: d)
  case Nil show ?case by simp
next
  case (Cons f fs)
  have "fst ` set d \<subseteq> fst ` set (record_fail f d)"
    by (auto simp: record_fail_def dom_update)
  also have "\<dots> \<subseteq> fst ` set (fold record_fail fs (record_fail f d))" by (rule Cons.IH)
  finally show ?case by simp
qed

lemma keys_turn_fail_of: "set fail_types \<subseteq> fst ` set (turn_fail_of turn)"
proof -
  have "set fail_types = fst ` set (map (\<lambda>fail_type. (fail_type, 0::int)) fail_types)"
    by (simp add: image_image)
  then show ?thesis unfolding turn_fail_of_def using keys_fold_record_fail by metis
qed

lemma getitem_turn_fail_of:
  "k \<in> set fail_types \<Longrightarrow> getitem (turn_fail_of turn) k = Inr (flag (turn_fail_of turn) k)"
proof -
  assume "k \<in> set fail_types"
  then have "k \<in> fst ` set (turn_fail_of turn)" using keys_turn_fail_of by blast
  then obtain v where "map_of (turn_fail_of turn) k = Some v"
    by (metis domD dom_map_of_conv_image_fst)
  then show ?thesis by (simp add: getitem_def flag_def)
qed

lemma fail_types_mem: "''parsing'' \<in> set fail_types" "''resolution'' \<in> set fail_types"
  "set (drop 2 fail_types) \<subseteq> set fail_types"
  by (simp_all add: fail_types_def)

lemma turn_fail_log_turn_score [simp]: "turn_fail (log_turn_score i n v s) = turn_fail s"
  and turn_score_log_turn_score [simp]: "turn_score (log_turn_score i n v s) = turn_score s"
  and logged_log_turn_score [simp]:
    "logged_turn_scores (log_turn_score i n v s) = logged_turn_scores s @ [(i, n, v)]"
  by (simp_all add: log_turn_score_def)

lemma log_invalid_format_type_eq:
  "log_invalid_format_type idx s =
     s\<lparr>logged_turn_scores := logged_turn_scores s @
        [(idx, Name ''command_tag_missing'', IntV (if invalid_format s = ''command_tag_missing'' then 1 else 0)),
         (idx, Name ''next_actions_missing'', IntV (if invalid_format s = ''next_actions_missing'' then 1 else 0))]\<rparr>"
  by (simp add: log_invalid_format_type_def log_turn_score_def)

lemma getitem_key: "k \<in> fst ` set d \<Longrightarrow> getitem d k = Inr (flag d k)"
proof -
  assume "k \<in> fst ` set d"
  then obtain v where "map_of d k = Some v"
    by (metis domD dom_map_of_conv_image_fst)
  then show ?thesis by (simp add: getitem_def flag_def)
qed

lemma log_turn_prefix:
  assumes "getitem (turn_score s) ''request_count'' = Inr rc"
      and "getitem (turn_score s) ''parsed_request_count'' = Inr p"
      and "getitem (turn_score s) ''violated_request_count'' = Inr v"
      and "set fail_types \<subseteq> fst ` set (turn_fail s)"
  shows "log_turn idx s =
     bind (getitem (turn_score s) ''goal_score'') (\<lambda>g.
       Inr (s\<lparr>logged_turn_scores := logged_turn_scores s @
               [(idx, METRIC_REQUEST_COUNT, IntV rc),
                (idx, METRIC_REQUEST_COUNT_PARSED, IntV p),
                (idx, METRIC_REQUEST_COUNT_VIOLATED, IntV v),
                (idx, Name ''command_tag_missing'', IntV (if invalid_format s = ''command_tag_missing'' then 1 else 0)),
                (idx, Name ''next_actions_missing'', IntV (if invalid_format s = ''next_actions_missing'' then 1 else 0)),
                (idx, Name ''action_parsing_fail'', IntV (flag (turn_fail s) ''parsing'')),
                (idx, Name ''action_resolution_fail'', IntV (flag (turn_fail s) ''resolution''))]
               @ map (\<lambda>k. (idx, Name k, IntV (flag (turn_fail s) k))) (drop 2 fail_types)
               @ [(idx, Name ''goal_score'', IntV g)],
             turn_scores := turn_scores s @ [turn_score s],
             turn_fails := turn_fails s @ [turn_fail s]\<rparr>))" (is "_ = ?rhs")
proof -
  have pa: "getitem (turn_fail s) ''parsing'' = Inr (flag (turn_fail s) ''parsing'')"
   and re: "getitem (turn_fail s) ''resolution'' = Inr (flag (turn_fail s) ''resolution'')"
    using assms(4) fail_types_mem(1,2) by (auto intro!: getitem_key)
  define s1 where "s1 = log_turn_score idx (Name ''action_resolution_fail'') (IntV (flag (turn_fail s) ''resolution''))
            (log_turn_score idx (Name ''action_parsing_fail'') (IntV (flag (turn_fail s) ''parsing''))
            (log_invalid_format_type idx
            (log_turn_score idx METRIC_REQUEST_COUNT_VIOLATED (IntV v)
            (log_turn_score idx METRIC_REQUEST_COUNT_PARSED (IntV p)
            (log_turn_score idx METRIC_REQUEST_COUNT (IntV rc) s)))))"
  have s1_eq: "s1 = s\<lparr>logged_turn_scores := logged_turn_scores s @
               [(idx, METRIC_REQUEST_COUNT, IntV rc),
                (idx, METRIC_REQUEST_COUNT_PARSED, IntV p),
                (idx, METRIC_REQUEST_COUNT_VIOLATED, IntV v),
                (idx, Name ''command_tag_missing'', IntV (if invalid_format s = ''command_tag_missing'' then 1 else 0)),
                (idx, Name ''next_actions_missing'', IntV (if invalid_format s = ''next_actions_missing'' then 1 else 0)),
                (idx, Name ''action_parsing_fail'', IntV (flag (turn_fail s) ''parsing'')),
                (idx, Name ''action_resolution_fail'', IntV (flag (turn_fail s) ''resolution''))]\<rparr>"
    by (simp add: s1_def log_invalid_format_type_eq log_turn_score_def)
  have tf: "turn_fail s1 = turn_fail s"
    by (simp add: s1_eq)
  have "set (drop 2 fail_types) \<subseteq> fst ` set (turn_fail s1)"
    using assms(4) fail_types_mem(3) unfolding tf by (rule_tac subset_trans)
  note lf = log_fail_types_eq[OF this, of idx]
  have "log_turn idx s = bind (getitem (turn_score s) ''goal_score'') (\<lambda>g.
     Inr ((log_turn_score idx (Name ''goal_score'') (IntV g)
       (s1\<lparr>logged_turn_scores := logged_turn_scores s1 @ map (\<lambda>k. (idx, Name k, IntV (flag (turn_fail s1) k))) (drop 2 fail_types)\<rparr>))
           \<lparr>turn_scores := turn_scores s1 @ [turn_score s1],
            turn_fails := turn_fails s1 @ [turn_fail s1]\<rparr>))"
    unfolding log_turn_def assms(1-3) pa re
    by (simp only: bind_def sum.case s1_def[symmetric] lf)
       (simp add: s1_eq split: sum.splits)
  also have "\<dots> = ?rhs"
    unfolding s1_eq by (simp add: log_turn_score_def bind_def split: sum.splits)
  finally show ?thesis .
qed

lemma score_turn_before_log: "score_turn idx turn s = log_turn idx (before_log turn s)"
proof -
  have "set_request_counts (fold on_event turn
       (s\<lparr>turn_score := [(''request_count'', 1)],
          turn_fail := map (\<lambda>fail_type. (fail_type, 0)) fail_types\<rparr>)) = before_log turn s"
    unfolding fold_on_event
    by (rule scorer.equality)
       (simp_all add: set_request_counts_def before_log_def marker_def turn_fail_of_def Let_def)
  then show ?thesis by (simp add: score_turn_def)
qed

lemma score_turn_no_goal:
  assumes "goal_scores turn = []"
  shows "score_turn idx turn s = Inl (KeyError ''goal_score'')"
proof -
  have "log_turn idx (before_log turn s) = Inl (KeyError ''goal_score'')"
    by (subst log_turn_prefix[where rc = 1 and p = "if marker (invalid_format s) turn = [] then 1 else 0"
          and v = "if marker (invalid_format s) turn = [] then 0 else 1"])
       (simp_all add: before_log_def assms getitem_def keys_turn_fail_of bind_def Let_def)
  then show ?thesis by (simp add: score_turn_before_log)
qed

lemma score_turn_goal:
  assumes "goal_scores turn \<noteq> []"
  shows "score_turn idx turn s = Inr (after_turn idx turn s)"
proof -
  have "log_turn idx (before_log turn s) = Inr (after_turn idx turn s)"
    by (subst log_turn_prefix[where rc = 1 and p = "if marker (invalid_format s) turn = [] then 1 else 0"
          and v = "if marker (invalid_format s) turn = [] then 0 else 1"])
       (simp_all add: before_log_def after_turn_def assms getitem_def keys_turn_fail_of bind_def Let_def
          turn_rows_def turn_score_of_def)
  then show ?thesis by (simp add: score_turn_before_log)
qed

lemma score_turns_scored:
  "list_all has_goal_status turns \<Longrightarrow> score_turns idx turns s = Inr (after_turns idx turns s)"
  by (induction turns arbitrary: idx s) (simp_all add: has_goal_status_def score_turn_goal bind_def)

lemma score_turns_unscored:
  "\<not> list_all has_goal_status turns \<Longrightarrow> score_turns idx turns s = Inl (KeyError ''goal_score'')"
proof (induction turns arbitrary: idx s)
  case Nil
  then show ?case by simp
next
  case (Cons turn rest)
  show ?case
  proof (cases "has_goal_status turn")
    case True
    with Cons.prems have "\<not> list_all has_goal_status rest" by simp
    from Cons.IH[OF this] True show ?thesis
      by (simp add: has_goal_status_def score_turn_goal bind_def)
  next
    case False
    then show ?thesis by (simp add: has_goal_status_def score_turn_no_goal bind_def)
  qed
qed

lemma invalid_formats_append [simp]: "invalid_formats (a @ b) = invalid_formats a @ invalid_formats b"
  and adventure_infos_append [simp]: "adventure_infos (a @ b) = adventure_infos a @ adventure_infos b"
  and game_results_append [simp]: "game_results (a @ b) = game_results a @ game_results b"
  and turn_limit_events_append [simp]: "turn_limit_events (a @ b) = turn_limit_events a @ turn_limit_events b"
  by (simp_all add: invalid_formats_def adventure_infos_def game_results_def turn_limit_events_def)

lemma marker_append: "marker m (a @ b) = marker (marker m a) b"
  by (simp add: marker_def)

lemma marker_Nil [simp]: "marker m [] = m"
  by (simp add: marker_def invalid_formats_def)

lemma after_turns_fields:
  "invalid_format (after_turns idx turns s) = marker (invalid_format s) (concat turns)"
  "adventure_info (after_turns idx turns s) =
     (if adventure_infos (concat turns) = [] then adventure_info s
      else Some (last (adventure_infos (concat turns))))"
  "turn_limit_loss (after_turns idx turns s) = (turn_limit_loss s \<or> turn_limit_events (concat turns) \<noteq> [])"
  "successfully_finished (after_turns idx turns s) =
     (if game_results (concat turns) = [] then successfully_finished s
      else snd (last (game_results (concat turns))))"
  "final_goals_achieved (after_turns idx turns s) =
     (if game_results (concat turns) = [] then final_goals_achieved s
      else fst (last (game_results (concat turns))))"
  "logged_episode_scores (after_turns idx turns s) = logged_episode_scores s"
  "turn_scores (after_turns idx turns s) = turn_scores s @ all_turn_scores (invalid_format s) turns"
  "turn_fails (after_turns idx turns s) = turn_fails s @ map turn_fail_of turns"
  "logged_turn_scores (after_turns idx turns s) = logged_turn_scores s @ all_rows idx (invalid_format s) turns"
  by (induction turns arbitrary: idx s; simp add: after_turn_def marker_append Let_def
        adventure_infos_def game_results_def turn_limit_events_def)+

lemma sum_key_total:
  "list_all (\<lambda>d. k \<in> fst ` set d) ds \<Longrightarrow> sum_key ds k = Inr (total ds k)"
  by (induction ds) (simp_all add: total_def getitem_key bind_def)

lemma log_fail_counts_eq:
  "list_all (\<lambda>d. set ks \<subseteq> fst ` set d) (turn_fails s) \<Longrightarrow>
   log_fail_counts ks s =
     Inr (s\<lparr>logged_episode_scores := logged_episode_scores s @ map (\<lambda>k. (Name k, IntV (total (turn_fails s) k))) ks\<rparr>)"
proof (induction ks arbitrary: s)
  case Nil
  show ?case by simp
next
  case (Cons k ks)
  from Cons.prems have k: "list_all (\<lambda>d. k \<in> fst ` set d) (turn_fails s)"
    and ks: "list_all (\<lambda>d. set ks \<subseteq> fst ` set d) (turn_fails s)"
    by (simp_all add: list_all_iff)
  have "list_all (\<lambda>d. set ks \<subseteq> fst ` set d)
          (turn_fails (log_episode_score (Name k) (IntV (total (turn_fails s) k)) s))"
    using ks by (simp add: log_episode_score_def)
  from Cons.IH[OF this] show ?case
    by (simp add: sum_key_total[OF k] bind_def log_episode_score_def)
qed

lemma score_requests_eq:
  assumes "list_all (\<lambda>d. {''request_count'', ''parsed_request_count'', ''violated_request_count''} \<subseteq> fst ` set d) (turn_scores s)"
      and "list_all (\<lambda>d. set fail_types \<subseteq> fst ` set d) (turn_fails s)"
  shows "score_requests s =
     (if total (turn_scores s) ''request_count'' = 0 then Inl ZeroDivisionError
      else Inr (s\<lparr>logged_episode_scores := logged_episode_scores s
                    @ request_rows (turn_scores s) (turn_fails s) (turn_limit_loss s)\<rparr>))"
proof -
  have a: "sum_key (turn_scores s) ''request_count'' = Inr (total (turn_scores s) ''request_count'')"
    "sum_key (turn_scores s) ''parsed_request_count'' = Inr (total (turn_scores s) ''parsed_request_count'')"
    "sum_key (turn_scores s) ''violated_request_count'' = Inr (total (turn_scores s) ''violated_request_count'')"
    using assms(1) by (auto intro!: sum_key_total simp: list_all_iff)
  have b: "sum_key (turn_fails s) ''parsing'' = Inr (total (turn_fails s) ''parsing'')"
    "sum_key (turn_fails s) ''resolution'' = Inr (total (turn_fails s) ''resolution'')"
    using assms(2) fail_types_mem(1,2) unfolding list_all_iff by (blast intro!: sum_key_total[unfolded list_all_iff])+
  have c: "\<And>s'. turn_fails s' = turn_fails s \<Longrightarrow>
     list_all (\<lambda>d. set (drop 2 fail_types) \<subseteq> fst ` set d) (turn_fails s')"
    using assms(2) fail_types_mem(3) by (auto simp: list_all_iff)
  show ?thesis
  proof (cases "total (turn_scores s) ''request_count'' = 0")
    case True
    then show ?thesis by (simp add: score_requests_def a bind_def true_div_def)
  next
    case False
    define s1 where "s1 = log_episode_score (Name ''action_resolution_fail'') (IntV (total (turn_fails s) ''resolution''))
            (log_episode_score (Name ''action_parsing_fail'') (IntV (total (turn_fails s) ''parsing''))
            (log_episode_score METRIC_REQUEST_SUCCESS (FloatV (real_of_int (total (turn_scores s) ''parsed_request_count'')
                                        / real_of_int (total (turn_scores s) ''request_count'')))
            (log_episode_score METRIC_REQUEST_COUNT (IntV (total (turn_scores s) ''request_count''))
            (log_episode_score METRIC_REQUEST_COUNT_PARSED (IntV (total (turn_scores s) ''parsed_request_count''))
            (log_episode_score METRIC_REQUEST_COUNT_VIOLATED (IntV (total (turn_scores s) ''violated_request_count''))
               s)))))"
    have s1_eq: "s1 = s\<lparr>logged_episode_scores := logged_episode_scores s @
       [(METRIC_REQUEST_COUNT_VIOLATED, IntV (total (turn_scores s) ''violated_request_count'')),
        (METRIC_REQUEST_COUNT_PARSED, IntV (total (turn_scores s) ''parsed_request_count'')),
        (METRIC_REQUEST_COUNT, IntV (total (turn_scores s) ''request_count'')),
        (METRIC_REQUEST_SUCCESS, FloatV (real_of_int (total (turn_scores s) ''parsed_request_count'')
                                        / real_of_int (total (turn_scores s) ''request_count''))),
        (Name ''action_parsing_fail'', IntV (total (turn_fails s) ''parsing'')),
        (Name ''action_resolution_fail'', IntV (total (turn_fails s) ''resolution''))]\<rparr>"
      by (simp add: s1_def log_episode_score_def)
    have "turn_fails s1 = turn_fails s" by (simp add: s1_eq)
    note lf = log_fail_counts_eq[OF c[OF this]]
    have "score_requests s = bind (log_fail_counts (drop 2 fail_types) s1) (\<lambda>s1.
        Inr (log_episode_score (Name ''turn_limit_loss'') (IntV (if turn_limit_loss s1 then 1 else 0)) s1))"
      using False by (simp add: score_requests_def a b bind_def true_div_def s1_def)
    also have "\<dots> = Inr (s\<lparr>logged_episode_scores := logged_episode_scores s
                    @ request_rows (turn_scores s) (turn_fails s) (turn_limit_loss s)\<rparr>)"
      unfolding lf by (simp add: s1_eq bind_def log_episode_score_def request_rows_def)
    finally show ?thesis using False by simp
  qed
qed

lemma score_outcome_eq:
  "score_outcome s =
     (case adventure_info s of
        None \<Rightarrow> Inl (KeyError ''optimal_turns'')
      | Some info \<Rightarrow>
          if max_turns info = optimal_turns info \<or> goal_count info = 0 \<or> turn_scores s = []
          then Inl ZeroDivisionError
          else Inr (s\<lparr>logged_episode_scores := logged_episode_scores s
                  @ outcome_rows info (int (length (turn_scores s))) (successfully_finished s)
                      (int (length (final_goals_achieved s))) (invalid_format s)\<rparr>))"
  by (simp add: score_outcome_def Let_def bind_def true_div_def log_episode_score_def outcome_rows_def
       split: option.splits)

lemma all_turn_scores_facts:
  "length (all_turn_scores m turns) = length turns"
  "list_all (\<lambda>d. {''request_count'', ''parsed_request_count'', ''violated_request_count''} \<subseteq> fst ` set d)
     (all_turn_scores m turns)"
  "total (all_turn_scores m turns) ''request_count'' = int (length turns)"
  by (induction turns arbitrary: m; simp add: turn_score_of_def total_def flag_def)+

lemma turn_fails_keys: "list_all (\<lambda>d. set fail_types \<subseteq> fst ` set d) (map turn_fail_of turns)"
  by (simp add: list_all_iff keys_turn_fail_of)

lemma after_turns_init:
  "invalid_format (after_turns 0 turns scorer_init) = marker [] (concat turns)"
  "adventure_info (after_turns 0 turns scorer_init) = logged_info turns"
  "turn_limit_loss (after_turns 0 turns scorer_init) = (turn_limit_events (concat turns) \<noteq> [])"
  "successfully_finished (after_turns 0 turns scorer_init) = finished_successfully turns"
  "final_goals_achieved (after_turns 0 turns scorer_init) = final_goals turns"
  "logged_episode_scores (after_turns 0 turns scorer_init) = []"
  "turn_scores (after_turns 0 turns scorer_init) = all_turn_scores [] turns"
  "turn_fails (after_turns 0 turns scorer_init) = map turn_fail_of turns"
  "logged_turn_scores (after_turns 0 turns scorer_init) = all_rows 0 [] turns"
  by (simp_all add: after_turns_fields scorer_init_def logged_info_def finished_successfully_def
        final_goals_def)

lemma compute_scores_unscored:
  "\<not> list_all has_goal_status turns \<Longrightarrow> compute_scores turns = Inl (KeyError ''goal_score'')"
  by (simp add: compute_scores_def score_turns_unscored bind_def)

lemma compute_scores_scored:
  assumes "list_all has_goal_status turns"
  shows "compute_scores turns =
     (if turns = [] then Inl ZeroDivisionError
      else case logged_info turns of
        None \<Rightarrow> Inl (KeyError ''optimal_turns'')
      | Some info \<Rightarrow>
          if max_turns info = optimal_turns info \<or> goal_count info = 0 then Inl ZeroDivisionError
          else Inr ((after_turns 0 turns scorer_init)
                      \<lparr>logged_episode_scores := episode_rows info turns\<rparr>))"
proof -
  define s where "s = after_turns 0 turns scorer_init"
  have rq: "score_requests s =
     (if turns = [] then Inl ZeroDivisionError
      else Inr (s\<lparr>logged_episode_scores :=
            request_rows (all_turn_scores [] turns) (map turn_fail_of turns)
              (turn_limit_events (concat turns) \<noteq> [])\<rparr>))"
  proof -
    have k1: "list_all (\<lambda>d. {''request_count'', ''parsed_request_count'', ''violated_request_count''} \<subseteq> fst ` set d) (turn_scores s)"
      unfolding s_def after_turns_init by (rule all_turn_scores_facts(2))
    have k2: "list_all (\<lambda>d. set fail_types \<subseteq> fst ` set d) (turn_fails s)"
      unfolding s_def after_turns_init by (rule turn_fails_keys)
    show ?thesis
      unfolding score_requests_eq[OF k1 k2]
      by (simp add: s_def after_turns_init all_turn_scores_facts(3))
  qed
  have cs: "compute_scores turns = bind (score_requests s) score_outcome"
    unfolding compute_scores_def score_turns_scored[OF assms] s_def[symmetric]
    by (simp add: bind_def)
  show ?thesis
  proof (cases "turns = []")
    case True
    have "compute_scores turns = Inl ZeroDivisionError"
      unfolding cs rq using True by (simp add: bind_def)
    then show ?thesis using True by simp
  next
    case False
    define s1 where "s1 = s\<lparr>logged_episode_scores :=
            request_rows (all_turn_scores [] turns) (map turn_fail_of turns)
              (turn_limit_events (concat turns) \<noteq> [])\<rparr>"
    have f: "adventure_info s1 = logged_info turns" "turn_scores s1 = all_turn_scores [] turns"
      "successfully_finished s1 = finished_successfully turns"
      "final_goals_achieved s1 = final_goals turns"
      "invalid_format s1 = marker [] (concat turns)"
      "logged_episode_scores s1 = request_rows (all_turn_scores [] turns) (map turn_fail_of turns)
              (turn_limit_events (concat turns) \<noteq> [])"
      by (simp_all add: s1_def s_def after_turns_init)
    have ne: "all_turn_scores [] turns \<noteq> []"
      using False all_turn_scores_facts(1)[of "[]" turns] by (metis length_0_conv)
    have "compute_scores turns = score_outcome s1"
      unfolding cs rq using False by (simp add: bind_def s1_def)
    also have "\<dots> = (case logged_info turns of
        None \<Rightarrow> Inl (KeyError ''optimal_turns'')
      | Some info \<Rightarrow>
          if max_turns info = optimal_turns info \<or> goal_count info = 0 then Inl ZeroDivisionError
          else Inr (s1\<lparr>logged_episode_scores := episode_rows info turns\<rparr>))"
      unfolding score_outcome_eq f
      by (simp add: ne all_turn_scores_facts(1) episode_rows_def split: option.splits)
    also have "\<dots> = (case logged_info turns of
        None \<Rightarrow> Inl (KeyError ''optimal_turns'')
      | Some info \<Rightarrow>
          if max_turns info = optimal_turns info \<or> goal_count info = 0 then Inl ZeroDivisionError
          else Inr (s\<lparr>logged_episode_scores := episode_rows info turns\<rparr>))"
      by (simp add: s1_def split: option.splits)
    finally have "compute_scores turns = (case logged_info turns of
        None \<Rightarrow> Inl (KeyError ''optimal_turns'')
      | Some info \<Rightarrow>
          if max_turns info = optimal_turns info \<or> goal_count info = 0 then Inl ZeroDivisionError
          else Inr (s\<lparr>logged_episode_scores := episode_rows info turns\<rparr>))" .
    then show ?thesis unfolding s_def using False by (simp only: if_False)
  qed
qed

section \<open>The episode scores\<close>

lemma episode_values_outcome:
  assumes "logged_episode_scores s = episode_rows info turns"
  shows "episode_values s (Name ''turns_over_par'') =
           [if finished_successfully turns then IntV (int (length turns) - optimal_turns info) else NaN]"
    and "episode_values s (Name ''turn_ratio'') =
           [if finished_successfully turns
            then FloatV (1 - real_of_int (int (length turns) - optimal_turns info)
                             / real_of_int (max_turns info - optimal_turns info)) else NaN]"
    and "episode_values s (Name ''achieved_goal_ratio'') =
           [FloatV (real_of_int (int (length (final_goals turns))) / real_of_int (goal_count info))]"
    and "episode_values s BENCH_SCORE =
           [if finished_successfully turns
            then FloatV (real_of_int (int (length (final_goals turns))) / real_of_int (goal_count info)
                   * (1 - real_of_int (int (length turns) - optimal_turns info)
                             / real_of_int (max_turns info - optimal_turns info))) else NaN]"
    and "episode_values s METRIC_ABORTED = [IntV (if marker [] (concat turns) \<noteq> [] then 1 else 0)]"
    and "episode_values s METRIC_SUCCESS = [IntV (if finished_successfully turns then 1 else 0)]"
    and "episode_values s METRIC_LOSE = [IntV (if finished_successfully turns then 0 else 1)]"
  by (simp_all add: assms episode_values_def episode_rows_def request_rows_def outcome_rows_def
        fail_types_def)

text \<open>
  C1. A log of a finished episode that yields goal_count = 4, three final goals,
  max_turns = 10, optimal_turns = 6 and eight turns is scored with achieved_goal_ratio
  0.75, turns_over_par 2, turn_ratio 0.5 and the benchmark score 0.375, the product of
  the two ratios.
\<close>

theorem C1_worked_example:
  assumes "list_all has_goal_status turns" and "length turns = 8"
      and "logged_info turns = Some info"
      and "goal_count info = 4" and "max_turns info = 10" and "optimal_turns info = 6"
      and "length (final_goals turns) = 3" and "finished_successfully turns"
  shows "\<exists>s. compute_scores turns = Inr s
           \<and> episode_values s (Name ''achieved_goal_ratio'') = [FloatV 0.75]
           \<and> episode_values s (Name ''turns_over_par'') = [IntV 2]
           \<and> episode_values s (Name ''turn_ratio'') = [FloatV 0.5]
           \<and> episode_values s BENCH_SCORE = [FloatV 0.375]
           \<and> (0.375 :: real) = 0.75 * 0.5"
proof -
  have ne: "turns \<noteq> []" using assms(2) by auto
  define s where "s = (after_turns 0 turns scorer_init)\<lparr>logged_episode_scores := episode_rows info turns\<rparr>"
  have cs: "compute_scores turns = Inr s"
    unfolding compute_scores_scored[OF assms(1)] using ne assms(3-6) by (simp add: s_def)
  have rows: "logged_episode_scores s = episode_rows info turns" by (simp add: s_def)
  show ?thesis
    using cs episode_values_outcome(1-4)[OF rows] assms(2,4-8) by simp
qed

theorem C1_worked_example_witness:
  "\<exists>s. compute_scores example_log = Inr s
           \<and> episode_values s (Name ''achieved_goal_ratio'') = [FloatV 0.75]
           \<and> episode_values s (Name ''turns_over_par'') = [IntV 2]
           \<and> episode_values s (Name ''turn_ratio'') = [FloatV 0.5]
           \<and> episode_values s BENCH_SCORE = [FloatV 0.375]
           \<and> (0.375 :: real) = 0.75 * 0.5"
proof (rule C1_worked_example[of example_log example_info])
  show "list_all has_goal_status example_log"
    by (simp add: example_log_def has_goal_status_def goal_scores_def)
  show "length example_log = 8" by (simp add: example_log_def)
  show "logged_info example_log = Some example_info"
    by (simp add: example_log_def logged_info_def adventure_infos_def)
  show "goal_count example_info = 4" "max_turns example_info = 10" "optimal_turns example_info = 6"
    by (simp_all add: example_info_def)
  show "length (final_goals example_log) = 3"
    by (simp add: example_log_def final_goals_def game_results_def)
  show "finished_successfully example_log"
    by (simp add: example_log_def finished_successfully_def game_results_def)
qed

lemma compute_scores_returns:
  assumes "turns \<noteq> []" and "list_all has_goal_status turns" and "logged_info turns = Some info"
      and "max_turns info \<noteq> optimal_turns info" and "goal_count info \<noteq> 0"
  shows "\<exists>s. compute_scores turns = Inr s \<and> logged_episode_scores s = episode_rows info turns
             \<and> logged_turn_scores s = all_rows 0 [] turns"
  unfolding compute_scores_scored[OF assms(2)] using assms(1,3-5)
  by (simp add: after_turns_init)

lemma compute_scores_degenerate:
  assumes "turns \<noteq> []" and "list_all has_goal_status turns" and "logged_info turns = Some info"
      and "max_turns info = optimal_turns info"
  shows "compute_scores turns = Inl ZeroDivisionError"
  unfolding compute_scores_scored[OF assms(2)] using assms(1,3,4) by simp

text \<open>
  C2, counterexample. An episode that ran into the turn limit, with max_turns equal to
  optimal_turns: the Scorer raises the division error and reports no score at all.
\<close>

theorem C2_counterexample:
  "\<not> finished_successfully degenerate_unfinished_log
   \<and> compute_scores degenerate_unfinished_log = Inl ZeroDivisionError"
proof -
  have "compute_scores degenerate_unfinished_log = Inl ZeroDivisionError"
    by (rule compute_scores_degenerate[of _ degenerate_info])
       (simp_all add: degenerate_unfinished_log_def degenerate_info_def has_goal_status_def
          goal_scores_def logged_info_def adventure_infos_def)
  moreover have "\<not> finished_successfully degenerate_unfinished_log"
    by (simp add: degenerate_unfinished_log_def finished_successfully_def game_results_def)
  ultimately show ?thesis by simp
qed

text \<open>
  C2, amended. On a log the Scorer can score (at least one turn, a goal_status event in
  every turn, an adventure_info event with max_turns different from optimal_turns and
  goal_count not zero), achieved_goal_ratio is the number of final goals over goal_count
  whatever the terminal state, and turns_over_par, turn_ratio and the benchmark score are
  the sentinel when the episode did not finish successfully.
\<close>

theorem C2_unfinished_sentinel:
  assumes "turns \<noteq> []" and "list_all has_goal_status turns" and "logged_info turns = Some info"
      and "max_turns info \<noteq> optimal_turns info" and "goal_count info \<noteq> 0"
  shows "\<exists>s. compute_scores turns = Inr s
           \<and> episode_values s (Name ''achieved_goal_ratio'') =
               [FloatV (real (length (final_goals turns)) / real_of_int (goal_count info))]
           \<and> (\<not> finished_successfully turns \<longrightarrow>
                 episode_values s (Name ''turns_over_par'') = [NaN]
               \<and> episode_values s (Name ''turn_ratio'') = [NaN]
               \<and> episode_values s BENCH_SCORE = [NaN])"
proof -
  from compute_scores_returns[OF assms] obtain s where
    s: "compute_scores turns = Inr s" "logged_episode_scores s = episode_rows info turns"
    by blast
  show ?thesis using s(1) episode_values_outcome(1-4)[OF s(2)] by simp
qed

theorem C2_unfinished_sentinel_witness:
  "\<exists>s. compute_scores turn_limit_log = Inr s
      \<and> episode_values s (Name ''achieved_goal_ratio'') = [FloatV 0.75]
      \<and> episode_values s (Name ''turns_over_par'') = [NaN]
      \<and> episode_values s (Name ''turn_ratio'') = [NaN]
      \<and> episode_values s BENCH_SCORE = [NaN]"
proof -
  have a: "turn_limit_log \<noteq> []" "list_all has_goal_status turn_limit_log"
    "logged_info turn_limit_log = Some short_info"
    "max_turns short_info \<noteq> optimal_turns short_info" "goal_count short_info \<noteq> 0"
    by (simp_all add: turn_limit_log_def short_info_def has_goal_status_def goal_scores_def
          logged_info_def adventure_infos_def)
  have b: "\<not> finished_successfully turn_limit_log" "length (final_goals turn_limit_log) = 3"
    "goal_count short_info = 4"
    by (simp_all add: turn_limit_log_def short_info_def finished_successfully_def final_goals_def
          game_results_def)
  show ?thesis using C2_unfinished_sentinel[OF a] b by simp
qed

text \<open>
  C3, counterexample. A finished episode with max_turns equal to optimal_turns: the
  division by max_turns - optimal_turns is executed with the denominator zero and the
  error leaves compute_scores.
\<close>

theorem C3_counterexample:
  "finished_successfully degenerate_finished_log
   \<and> compute_scores degenerate_finished_log = Inl ZeroDivisionError"
proof -
  have "compute_scores degenerate_finished_log = Inl ZeroDivisionError"
    by (rule compute_scores_degenerate[of _ degenerate_info])
       (simp_all add: degenerate_finished_log_def degenerate_info_def has_goal_status_def
          goal_scores_def logged_info_def adventure_infos_def)
  moreover have "finished_successfully degenerate_finished_log"
    by (simp add: degenerate_finished_log_def finished_successfully_def game_results_def)
  ultimately show ?thesis by simp
qed

text \<open>
  C3, amended. The Scorer has no guard for max_turns = optimal_turns. On a log that
  reaches the computation of turn_ratio (at least one turn, a goal_status event in every
  turn, an adventure_info event), the division raises ZeroDivisionError exactly in the
  degenerate configuration (or when goal_count is zero), for finished and unfinished
  episodes alike, and the error leaves compute_scores; otherwise compute_scores returns.
\<close>

theorem C3_division_unguarded:
  assumes "turns \<noteq> []" and "list_all has_goal_status turns" and "logged_info turns = Some info"
  shows "(max_turns info = optimal_turns info \<longrightarrow> compute_scores turns = Inl ZeroDivisionError)
       \<and> (compute_scores turns = Inl ZeroDivisionError \<longrightarrow>
            max_turns info = optimal_turns info \<or> goal_count info = 0)
       \<and> (max_turns info \<noteq> optimal_turns info \<and> goal_count info \<noteq> 0 \<longrightarrow>
            (\<exists>s. compute_scores turns = Inr s))"
  unfolding compute_scores_scored[OF assms(2)] using assms(1,3) by simp

theorem C3_division_unguarded_witness:
  "compute_scores degenerate_unfinished_log = Inl ZeroDivisionError
   \<and> (\<exists>s. compute_scores turn_limit_log = Inr s)"
proof -
  have a: "degenerate_unfinished_log \<noteq> []" "list_all has_goal_status degenerate_unfinished_log"
    "logged_info degenerate_unfinished_log = Some degenerate_info"
    by (simp_all add: degenerate_unfinished_log_def has_goal_status_def goal_scores_def
          logged_info_def adventure_infos_def)
  have b: "turn_limit_log \<noteq> []" "list_all has_goal_status turn_limit_log"
    "logged_info turn_limit_log = Some short_info"
    by (simp_all add: turn_limit_log_def has_goal_status_def goal_scores_def
          logged_info_def adventure_infos_def)
  have c: "max_turns degenerate_info = optimal_turns degenerate_info"
    "max_turns short_info \<noteq> optimal_turns short_info" "goal_count short_info \<noteq> 0"
    by (simp_all add: degenerate_info_def short_info_def)
  show ?thesis using C3_division_unguarded[OF a] C3_division_unguarded[OF b] c by blast
qed

text \<open>A game_result event appended to the last turn changes no reading but the result.\<close>

lemma logged_scores_eq:
  "logged_scores turns =
     (if \<not> list_all has_goal_status turns then Inl (KeyError ''goal_score'')
      else if turns = [] then Inl ZeroDivisionError
      else case logged_info turns of
        None \<Rightarrow> Inl (KeyError ''optimal_turns'')
      | Some info \<Rightarrow>
          if max_turns info = optimal_turns info \<or> goal_count info = 0 then Inl ZeroDivisionError
          else Inr (all_rows 0 [] turns, episode_rows info turns))"
proof (cases "list_all has_goal_status turns")
  case False
  then show ?thesis by (simp add: logged_scores_def compute_scores_unscored bind_def)
next
  case True
  show ?thesis
    unfolding logged_scores_def compute_scores_scored[OF True]
    using True by (simp add: bind_def after_turns_init split: option.splits)
qed

lemma append_event_Cons:
  "append_event e (t # ts) = (if ts = [] then [t @ [e]] else t # append_event e ts)"
  by (simp add: append_event_def)

lemma concat_append_event: "turns \<noteq> [] \<Longrightarrow> concat (append_event e turns) = concat turns @ [e]"
  by (induction turns) (simp_all add: append_event_Cons)

lemma append_event_not_Nil [simp]: "append_event e turns \<noteq> []"
  by (simp add: append_event_def)

lemma length_append_event: "turns \<noteq> [] \<Longrightarrow> length (append_event e turns) = length turns"
  by (simp add: append_event_def)

lemma game_result_last_reads:
  "goal_scores (t @ [Game_result g f]) = goal_scores t"
  "marker m (t @ [Game_result g f]) = marker m t"
  "turn_fail_of (t @ [Game_result g f]) = turn_fail_of t"
  "has_goal_status (t @ [Game_result g f]) = has_goal_status t"
  by (simp_all add: goal_scores_def marker_def invalid_formats_def turn_fail_of_def action_fails_def
        has_goal_status_def)

lemma game_result_appended:
  assumes "turns \<noteq> []"
  shows "list_all has_goal_status (append_event (Game_result g f) turns) = list_all has_goal_status turns"
    and "all_rows idx m (append_event (Game_result g f) turns) = all_rows idx m turns"
    and "all_turn_scores m (append_event (Game_result g f) turns) = all_turn_scores m turns"
    and "map turn_fail_of (append_event (Game_result g f) turns) = map turn_fail_of turns"
  using assms
  by (induction turns arbitrary: idx m; simp add: append_event_Cons game_result_last_reads)+

lemma game_result_appended_episode:
  assumes "turns \<noteq> []" and "game_results (concat turns) = []"
  shows "logged_info (append_event (Game_result [] False) turns) = logged_info turns"
    and "episode_rows info (append_event (Game_result [] False) turns) = episode_rows info turns"
    and "\<not> finished_successfully turns"
  using assms
  by (simp_all add: logged_info_def episode_rows_def concat_append_event game_result_appended
        length_append_event finished_successfully_def final_goals_def adventure_infos_def
        game_results_def turn_limit_events_def marker_def invalid_formats_def)

lemma missing_result_as_loss:
  assumes "turns \<noteq> []" and "game_results (concat turns) = []"
  shows "logged_scores turns = logged_scores (append_event (Game_result [] False) turns)"
  unfolding logged_scores_eq using assms(1)
  by (simp add: game_result_appended[OF assms(1)] game_result_appended_episode[OF assms]
        split: option.splits)

text \<open>
  C8, counterexample. A log with no game_result event is scored without any report of
  the inconsistency: success = 0, lose = 1, the par metrics are the sentinel, and the
  scores logged are those of the same episode ended by the result of a loss.
\<close>

theorem C8_counterexample:
  "game_results (concat no_result_log) = []
   \<and> (\<exists>s. compute_scores no_result_log = Inr s
         \<and> episode_values s METRIC_SUCCESS = [IntV 0] \<and> episode_values s METRIC_LOSE = [IntV 1]
         \<and> episode_values s (Name ''turns_over_par'') = [NaN]
         \<and> episode_values s (Name ''turn_ratio'') = [NaN]
         \<and> episode_values s BENCH_SCORE = [NaN])
   \<and> logged_scores no_result_log = logged_scores lost_log"
proof -
  have a: "no_result_log \<noteq> []" "list_all has_goal_status no_result_log"
    "logged_info no_result_log = Some short_info"
    "max_turns short_info \<noteq> optimal_turns short_info" "goal_count short_info \<noteq> 0"
    by (simp_all add: no_result_log_def short_info_def has_goal_status_def goal_scores_def
          logged_info_def adventure_infos_def)
  have b: "game_results (concat no_result_log) = []"
    by (simp add: no_result_log_def game_results_def)
  have c: "lost_log = append_event (Game_result [] False) no_result_log"
    by (simp add: lost_log_def no_result_log_def append_event_def)
  from compute_scores_returns[OF a] obtain s where
    s: "compute_scores no_result_log = Inr s"
       "logged_episode_scores s = episode_rows short_info no_result_log"
    by blast
  have "\<not> finished_successfully no_result_log"
    by (rule game_result_appended_episode(3)[OF a(1) b])
  with s(1) episode_values_outcome[OF s(2)] b missing_result_as_loss[OF a(1) b] c
  show ?thesis by simp
qed

text \<open>
  C8, amended. The Scorer does not detect a log with no game_result event. It scores
  the log as it scores the same log with the result of an unsuccessful episode with no
  goal achieved appended; when the log can be scored to the end, success is 0, lose is 1
  and turns_over_par, turn_ratio and the benchmark score are the sentinel.
\<close>

theorem C8_missing_result_scored_as_loss:
  assumes "turns \<noteq> []" and "game_results (concat turns) = []"
      and "list_all has_goal_status turns" and "logged_info turns = Some info"
      and "max_turns info \<noteq> optimal_turns info" and "goal_count info \<noteq> 0"
  shows "logged_scores turns = logged_scores (append_event (Game_result [] False) turns)
       \<and> (\<exists>s. compute_scores turns = Inr s
           \<and> episode_values s METRIC_SUCCESS = [IntV 0] \<and> episode_values s METRIC_LOSE = [IntV 1]
           \<and> episode_values s (Name ''turns_over_par'') = [NaN]
           \<and> episode_values s (Name ''turn_ratio'') = [NaN]
           \<and> episode_values s BENCH_SCORE = [NaN])"
proof -
  from compute_scores_returns[OF assms(1,3-6)] obtain s where
    s: "compute_scores turns = Inr s" "logged_episode_scores s = episode_rows info turns"
    by blast
  have "\<not> finished_successfully turns"
    by (rule game_result_appended_episode(3)[OF assms(1,2)])
  with s(1) episode_values_outcome[OF s(2)] missing_result_as_loss[OF assms(1,2)]
  show ?thesis by simp
qed

theorem C8_missing_result_scored_as_loss_witness:
  "logged_scores cut_off_log = logged_scores (append_event (Game_result [] False) cut_off_log)
   \<and> (\<exists>s. compute_scores cut_off_log = Inr s
       \<and> episode_values s METRIC_SUCCESS = [IntV 0] \<and> episode_values s METRIC_LOSE = [IntV 1]
       \<and> episode_values s (Name ''turns_over_par'') = [NaN]
       \<and> episode_values s (Name ''turn_ratio'') = [NaN]
       \<and> episode_values s BENCH_SCORE = [NaN])"
proof (rule C8_missing_result_scored_as_loss[of cut_off_log short_info])
  show "cut_off_log \<noteq> []" "list_all has_goal_status cut_off_log"
    "logged_info cut_off_log = Some short_info"
    "max_turns short_info \<noteq> optimal_turns short_info" "goal_count short_info \<noteq> 0"
    "game_results (concat cut_off_log) = []"
    by (simp_all add: cut_off_log_def short_info_def has_goal_status_def goal_scores_def
          logged_info_def adventure_infos_def game_results_def)
qed

section \<open>The scores of a turn\<close>

text \<open>The scores logged for turn \<open>t\<close> of a scored log are the rows of that turn.\<close>

lemma turn_rows_index: "r \<in> set (turn_rows i m tf g) \<Longrightarrow> fst r = i"
  by (auto simp: turn_rows_def)

lemma all_rows_index: "r \<in> set (all_rows idx m turns) \<Longrightarrow> idx \<le> fst r"
proof (induction turns arbitrary: idx m)
  case Nil
  then show ?case by simp
next
  case (Cons turn rest)
  then show ?case
    using turn_rows_index[of r idx] Cons.IH[of "Suc idx"] by (fastforce simp: le_Suc_eq)
qed

lemma filter_turn_rows_same:
  "filter (\<lambda>r. fst r = j) (turn_rows j m tf g) = turn_rows j m tf g"
  by (rule filter_True) (auto dest: turn_rows_index)

lemma filter_turn_rows_other:
  "i \<noteq> j \<Longrightarrow> filter (\<lambda>r. fst r = j) (turn_rows i m tf g) = []"
  by (rule filter_False) (auto dest: turn_rows_index)

lemma filter_all_rows_later:
  "j < idx \<Longrightarrow> filter (\<lambda>r. fst r = j) (all_rows idx m turns) = []"
  by (rule filter_False) (auto dest: all_rows_index)

lemma rows_of_turn:
  "t < length turns \<Longrightarrow>
   filter (\<lambda>r. fst r = idx + t) (all_rows idx m turns) =
     turn_rows (idx + t) (marker m (concat (take (Suc t) turns))) (turn_fail_of (turns ! t))
       (last (goal_scores (turns ! t)))"
proof (induction turns arbitrary: idx m t)
  case Nil
  then show ?case by simp
next
  case (Cons turn rest)
  show ?case
  proof (cases t)
    case 0
    then show ?thesis
      by (simp add: filter_turn_rows_same filter_all_rows_later)
  next
    case (Suc t')
    with Cons.prems have "t' < length rest" by simp
    from Cons.IH[OF this, of "Suc idx" "marker m turn"] Suc show ?thesis
      by (simp add: filter_turn_rows_other marker_append)
  qed
qed

lemma compute_scores_Inr:
  assumes "compute_scores turns = Inr s"
  shows "list_all has_goal_status turns" and "logged_turn_scores s = all_rows 0 [] turns"
proof -
  show g: "list_all has_goal_status turns"
    using assms compute_scores_unscored[of turns] by auto
  show "logged_turn_scores s = all_rows 0 [] turns"
    using assms unfolding compute_scores_scored[OF g]
    by (auto simp: after_turns_init split: if_splits option.splits)
qed

lemma turn_values_scored:
  assumes "compute_scores turns = Inr s" and "t < length turns"
  shows "turn_values s t n =
     map (\<lambda>(i, m, v). v) (filter (\<lambda>(i, m, v). m = n)
       (turn_rows t (turn_marker turns t) (turn_fail_of (turns ! t)) (last (goal_scores (turns ! t)))))"
proof -
  have "filter (\<lambda>(i, m, v). i = t \<and> m = n) (logged_turn_scores s) =
        filter (\<lambda>(i, m, v). m = n) (filter (\<lambda>r. fst r = 0 + t) (all_rows 0 [] turns))"
    unfolding compute_scores_Inr(2)[OF assms(1)]
    by (simp add: case_prod_unfold conj_commute)
  then show ?thesis
    unfolding rows_of_turn[OF assms(2)] by (simp add: turn_values_def turn_marker_def)
qed

lemma turn_values_requests:
  assumes "compute_scores turns = Inr s" and "t < length turns"
  shows "turn_values s t METRIC_REQUEST_COUNT = [IntV 1]"
    and "turn_values s t METRIC_REQUEST_COUNT_PARSED = [IntV (if turn_marker turns t = [] then 1 else 0)]"
    and "turn_values s t METRIC_REQUEST_COUNT_VIOLATED = [IntV (if turn_marker turns t = [] then 0 else 1)]"
    and "turn_values s t (Name ''command_tag_missing'') =
           [IntV (if turn_marker turns t = ''command_tag_missing'' then 1 else 0)]"
    and "turn_values s t (Name ''next_actions_missing'') =
           [IntV (if turn_marker turns t = ''next_actions_missing'' then 1 else 0)]"
  unfolding turn_values_scored[OF assms]
  by (simp_all add: turn_rows_def fail_types_def)

lemma invalid_formats_take:
  "set (invalid_formats (concat (take n turns))) \<subseteq> set (invalid_formats (concat turns))"
proof -
  have "concat turns = concat (take n turns) @ concat (drop n turns)"
    by (metis append_take_drop_id concat_append)
  then show ?thesis by simp
qed

lemma turn_marker_in:
  "violation_recorded turns t \<Longrightarrow> turn_marker turns t \<in> set (invalid_formats (concat turns))"
  using invalid_formats_take[of "Suc t" turns]
  by (auto simp: violation_recorded_def turn_marker_def marker_def)

lemma turn_marker_none: "\<not> violation_recorded turns t \<Longrightarrow> turn_marker turns t = []"
  by (simp add: violation_recorded_def turn_marker_def marker_def)

text \<open>
  The Game Master logs an invalid_format event only with the flag as content and only
  when the flag is set (the guard of line 134): every invalid_format event it adds to the
  log carries a content that is not empty.
\<close>

lemma log_event_events:
  "set (concat (self_interactions (log_event a m))) = insert a (set (concat (self_interactions m)))"
proof (cases "self_interactions m = []")
  case True
  then show ?thesis by (simp add: log_event_def)
next
  case False
  then have "concat (self_interactions m) =
      concat (butlast (self_interactions m)) @ last (self_interactions m)"
    by (metis append_butlast_last_id concat_append concat.simps(1,2) append_Nil2)
  with False show ?thesis by (auto simp: log_event_def)
qed

lemma does_game_proceed_invalid_format:
  assumes "Invalid_format c \<in> set (concat (self_interactions (snd (does_game_proceed m))))"
  shows "Invalid_format c \<in> set (concat (self_interactions m)) \<or> c \<noteq> []"
  using assms
  by (auto simp: does_game_proceed_def log_event_events simp del: set_concat split: if_splits)

text \<open>
  On other logs the marker decides, not the occurrence of an event: an invalid_format
  event with the empty content, which the Game Master never logs, makes the Scorer count
  the turn as parsed again.
\<close>

lemma empty_content_resets_marker:
  "violation_recorded reset_log 1
   \<and> (\<exists>s. compute_scores reset_log = Inr s
         \<and> turn_values s 1 METRIC_REQUEST_COUNT_PARSED = [IntV 1])"
proof -
  have a: "reset_log \<noteq> []" "list_all has_goal_status reset_log"
    "logged_info reset_log = Some short_info"
    "max_turns short_info \<noteq> optimal_turns short_info" "goal_count short_info \<noteq> 0"
    by (simp_all add: reset_log_def short_info_def has_goal_status_def goal_scores_def
          logged_info_def adventure_infos_def)
  from compute_scores_returns[OF a] obtain s where s: "compute_scores reset_log = Inr s"
    by blast
  have t: "1 < length reset_log" by (simp add: reset_log_def)
  have m: "turn_marker reset_log 1 = []"
    by (simp add: turn_marker_def marker_def reset_log_def invalid_formats_def)
  have v: "violation_recorded reset_log 1"
    by (simp add: violation_recorded_def reset_log_def invalid_formats_def)
  show ?thesis using s v turn_values_requests(2)[OF s t] m by simp
qed

text \<open>
  C9. In every turn of every scored log, request_count is 1 and
  parsed_request_count + violated_request_count = request_count, and
  parsed_request_count is 1 exactly when the invalid-format marker at the end of the turn
  is empty. On a log whose invalid_format events all carry a category (a content that is
  not empty, as every one the Game Master logs does), this is exactly when no
  invalid_format event occurs up to and including the turn.
\<close>

theorem C9_request_counts:
  assumes "compute_scores turns = Inr s" and "t < length turns"
  shows "\<exists>p v. turn_values s t METRIC_REQUEST_COUNT = [IntV 1]
           \<and> turn_values s t METRIC_REQUEST_COUNT_PARSED = [IntV p]
           \<and> turn_values s t METRIC_REQUEST_COUNT_VIOLATED = [IntV v]
           \<and> p + v = 1 \<and> p = (if turn_marker turns t = [] then 1 else 0)
           \<and> ([] \<notin> set (invalid_formats (concat turns)) \<longrightarrow>
                 p = (if violation_recorded turns t then 0 else 1))"
proof (cases "violation_recorded turns t")
  case True
  have "[] \<notin> set (invalid_formats (concat turns)) \<longrightarrow> turn_marker turns t \<noteq> []"
    using turn_marker_in[OF True] by metis
  with True turn_values_requests(1-3)[OF assms] show ?thesis by auto
next
  case False
  from turn_marker_none[OF this] False turn_values_requests(1-3)[OF assms]
  show ?thesis by simp
qed

theorem C9_request_counts_witness:
  "\<exists>s p v. compute_scores violation_log = Inr s
      \<and> turn_values s 1 METRIC_REQUEST_COUNT = [IntV 1]
      \<and> turn_values s 1 METRIC_REQUEST_COUNT_PARSED = [IntV p]
      \<and> turn_values s 1 METRIC_REQUEST_COUNT_VIOLATED = [IntV v]
      \<and> p + v = 1 \<and> p = 0 \<and> violation_recorded violation_log 1
      \<and> [] \<notin> set (invalid_formats (concat violation_log))"
proof -
  have a: "violation_log \<noteq> []" "list_all has_goal_status violation_log"
    "logged_info violation_log = Some short_info"
    "max_turns short_info \<noteq> optimal_turns short_info" "goal_count short_info \<noteq> 0"
    by (simp_all add: violation_log_def short_info_def has_goal_status_def goal_scores_def
          logged_info_def adventure_infos_def)
  from compute_scores_returns[OF a] obtain s where s: "compute_scores violation_log = Inr s"
    by blast
  have t: "1 < length violation_log" by (simp add: violation_log_def)
  have n: "[] \<notin> set (invalid_formats (concat violation_log))"
    by (simp add: violation_log_def invalid_formats_def)
  have v: "violation_recorded violation_log 1"
    by (simp add: violation_recorded_def violation_log_def invalid_formats_def)
  from C9_request_counts[OF s t] n v s show ?thesis by auto
qed




text \<open>The failure flags of a turn.\<close>

lemma map_of_fold_record_fail:
  "map_of (fold record_fail fs d) k =
     (if k \<in> fst ` set fs \<union> snd ` set fs then Some 1 else map_of d k)"
  by (induction fs arbitrary: d) (auto simp: record_fail_def update_conv')

lemma flag_turn_fail_of:
  "k \<in> set fail_types \<Longrightarrow> flag (turn_fail_of turn) k = (if k \<in> failed_kinds turn then 1 else 0)"
  unfolding flag_def turn_fail_of_def map_of_fold_record_fail failed_kinds_def
  by (auto simp: map_of_map_restrict restrict_map_def split: option.splits)

lemma turn_values_fail_flags:
  assumes "compute_scores turns = Inr s" and "t < length turns"
  shows "map (turn_values s t) fail_flag_names =
           map (\<lambda>k. [IntV (flag (turn_fail_of (turns ! t)) k)]) fail_types"
  unfolding turn_values_scored[OF assms]
  by (simp add: fail_flag_names_def turn_rows_def fail_types_def)

lemma turn_values_failed_kinds:
  assumes "compute_scores turns = Inr s" and "t < length turns"
  shows "map (turn_values s t) fail_flag_names =
           map (\<lambda>k. [IntV (if k \<in> failed_kinds (turns ! t) then 1 else 0)]) fail_types"
  unfolding turn_values_fail_flags[OF assms]
  by (rule map_cong) (simp_all add: flag_turn_fail_of)

lemma distinct_fail_types: "distinct fail_types"
  by (simp add: fail_types_def)

lemma filter_one_of_two:
  "distinct xs \<Longrightarrow> x \<in> set xs \<Longrightarrow> y \<notin> set xs \<Longrightarrow> filter (\<lambda>k. k = x \<or> k = y) xs = [x]"
proof (induction xs)
  case Nil
  then show ?case by simp
next
  case (Cons a xs)
  show ?case
  proof (cases "a = x")
    case True
    with Cons.prems have "filter (\<lambda>k. k = x \<or> k = y) xs = []"
      by (auto simp: filter_empty_conv)
    with True show ?thesis by simp
  next
    case False
    with Cons show ?thesis by auto
  qed
qed

lemma fail_types_count:
  "length fail_flag_names = 13" "length (take 2 fail_types) = 2" "length (drop 2 fail_types) = 11"
  "take 2 fail_types = [''parsing'', ''resolution'']"
  by (simp_all add: fail_flag_names_def fail_types_def)

text \<open>
  C5, counterexample. The turn of a scored log carries 13 interpreter-failure flags, not
  11: one for each of the 2 phases and one for each of 11 sub-kinds.
\<close>

theorem C5_counterexample:
  "length fail_flag_names = 13 \<and> length (drop 2 fail_types) = 11
   \<and> (\<exists>s. compute_scores one_fail_log = Inr s
        \<and> map (turn_values s 0) fail_flag_names =
            [[IntV 1], [IntV 0], [IntV 0], [IntV 1], [IntV 0], [IntV 0], [IntV 0], [IntV 0],
             [IntV 0], [IntV 0], [IntV 0], [IntV 0], [IntV 0]])"
proof -
  have a: "one_fail_log \<noteq> []" "list_all has_goal_status one_fail_log"
    "logged_info one_fail_log = Some short_info"
    "max_turns short_info \<noteq> optimal_turns short_info" "goal_count short_info \<noteq> 0"
    by (simp_all add: one_fail_log_def short_info_def has_goal_status_def goal_scores_def
          logged_info_def adventure_infos_def)
  from compute_scores_returns[OF a] obtain s where s: "compute_scores one_fail_log = Inr s"
    by blast
  have t: "0 < length one_fail_log" by (simp add: one_fail_log_def)
  have k: "failed_kinds (one_fail_log ! 0) = {''parsing'', ''undefined_action_verb''}"
    by (auto simp: one_fail_log_def failed_kinds_def action_fails_def)
  have "map (turn_values s 0) fail_flag_names =
            [[IntV 1], [IntV 0], [IntV 0], [IntV 1], [IntV 0], [IntV 0], [IntV 0], [IntV 0],
             [IntV 0], [IntV 0], [IntV 0], [IntV 0], [IntV 0]]"
    unfolding turn_values_failed_kinds[OF s t] k by (simp add: fail_types_def)
  with s fail_types_count(1,3) show ?thesis by (intro conjI exI[of _ s])
qed

text \<open>
  C5, amended. The per-turn metrics carry one-hot flags for exactly 13 interpreter
  failure kinds, the 2 phases (parsing, resolution) and 11 sub-kinds. In a scored turn
  whose only action_fail event has one of the 2 phases and one of the 11 sub-kinds, the
  flags of that phase and of that sub-kind are 1 and the other eleven are 0: exactly one
  phase flag and one sub-kind flag are set.
\<close>

theorem C5_fail_flags:
  assumes "compute_scores turns = Inr s" and "t < length turns"
      and "action_fails (turns ! t) = [(phase, fail_type)]"
      and "phase \<in> set (take 2 fail_types)" and "fail_type \<in> set (drop 2 fail_types)"
  shows "length fail_flag_names = 13 \<and> length (take 2 fail_types) = 2
       \<and> length (drop 2 fail_types) = 11
       \<and> map (turn_values s t) fail_flag_names =
           map (\<lambda>k. [IntV (if k = phase \<or> k = fail_type then 1 else 0)]) fail_types
       \<and> filter (\<lambda>k. k = phase \<or> k = fail_type) (take 2 fail_types) = [phase]
       \<and> filter (\<lambda>k. k = phase \<or> k = fail_type) (drop 2 fail_types) = [fail_type]"
proof -
  have k: "\<And>k. (k \<in> failed_kinds (turns ! t)) = (k = phase \<or> k = fail_type)"
    by (auto simp: failed_kinds_def assms(3))
  have f: "map (turn_values s t) fail_flag_names =
           map (\<lambda>k. [IntV (if k = phase \<or> k = fail_type then 1 else 0)]) fail_types"
    unfolding turn_values_failed_kinds[OF assms(1,2)] k ..
  have d: "distinct (take 2 fail_types @ drop 2 fail_types)"
    unfolding append_take_drop_id by (rule distinct_fail_types)
  then have n: "fail_type \<notin> set (take 2 fail_types)" "phase \<notin> set (drop 2 fail_types)"
    using assms(4,5) unfolding distinct_append by blast+
  have p: "filter (\<lambda>k. k = phase \<or> k = fail_type) (take 2 fail_types) = [phase]"
    using d assms(4) n(1) unfolding distinct_append by (blast intro: filter_one_of_two)
  have "filter (\<lambda>k. k = fail_type \<or> k = phase) (drop 2 fail_types) = [fail_type]"
    using d assms(5) n(2) unfolding distinct_append by (blast intro: filter_one_of_two)
  then have q: "filter (\<lambda>k. k = phase \<or> k = fail_type) (drop 2 fail_types) = [fail_type]"
    by (simp add: disj_commute)
  show ?thesis using fail_types_count(1-3) f p q by (intro conjI)
qed

theorem C5_fail_flags_witness:
  "\<exists>s. compute_scores resolution_fail_log = Inr s
      \<and> length fail_flag_names = 13
      \<and> map (turn_values s 1) fail_flag_names =
          [[IntV 0], [IntV 1], [IntV 0], [IntV 0], [IntV 0], [IntV 0], [IntV 0], [IntV 0],
           [IntV 0], [IntV 0], [IntV 1], [IntV 0], [IntV 0]]"
proof -
  have a: "resolution_fail_log \<noteq> []" "list_all has_goal_status resolution_fail_log"
    "logged_info resolution_fail_log = Some short_info"
    "max_turns short_info \<noteq> optimal_turns short_info" "goal_count short_info \<noteq> 0"
    by (simp_all add: resolution_fail_log_def short_info_def has_goal_status_def goal_scores_def
          logged_info_def adventure_infos_def)
  from compute_scores_returns[OF a] obtain s where s: "compute_scores resolution_fail_log = Inr s"
    by blast
  have t: "1 < length resolution_fail_log" by (simp add: resolution_fail_log_def)
  have e: "action_fails (resolution_fail_log ! 1) = [(''resolution'', ''entity_not_accessible'')]"
    by (simp add: resolution_fail_log_def action_fails_def)
  have m: "''resolution'' \<in> set (take 2 fail_types)"
    "''entity_not_accessible'' \<in> set (drop 2 fail_types)"
    by (simp_all add: fail_types_def)
  note w = C5_fail_flags[OF s t e m]
  from w have l: "length fail_flag_names = 13" by (elim conjE)
  from w have "map (turn_values s 1) fail_flag_names =
      map (\<lambda>k. [IntV (if k = ''resolution'' \<or> k = ''entity_not_accessible'' then 1 else 0)]) fail_types"
    by (elim conjE)
  also have "\<dots> = [[IntV 0], [IntV 1], [IntV 0], [IntV 0], [IntV 0], [IntV 0], [IntV 0], [IntV 0],
           [IntV 0], [IntV 0], [IntV 1], [IntV 0], [IntV 0]]"
    by (simp add: fail_types_def)
  finally show ?thesis using s l by (intro conjI exI[of _ s])
qed

section \<open>The Game Master\<close>

text \<open>
  C6. The continuation predicate returns false exactly when the format-validity flag is
  set, or the goals achieved are the goals required, or the number of completed turns has
  reached the turn budget. The checks are made in this order: with the flag set only the
  flag is logged; otherwise, with the goals reached, the episode is marked finished;
  otherwise, at the turn limit, the limit is logged; otherwise nothing changes.
\<close>

theorem C6_does_game_proceed:
  "fst (does_game_proceed m) =
     (\<not> (self_invalid_format m \<noteq> [] \<or> self_goals_achieved m = self_goals_required m
          \<or> instance_max_turns (self_game_instance m) \<le> int (length (self_turns m))))
   \<and> (self_invalid_format m \<noteq> [] \<longrightarrow>
         snd (does_game_proceed m) = log_event (Invalid_format (self_invalid_format m)) m)
   \<and> (self_invalid_format m = [] \<and> self_goals_achieved m = self_goals_required m \<longrightarrow>
         snd (does_game_proceed m) =
           log_event (Adventure_finished (list_of (self_goals_achieved m))) (m\<lparr>self_finished := True\<rparr>))
   \<and> (self_invalid_format m = [] \<and> self_goals_achieved m \<noteq> self_goals_required m
        \<and> instance_max_turns (self_game_instance m) \<le> int (length (self_turns m)) \<longrightarrow>
         snd (does_game_proceed m) =
           log_event (Turn_limit_reached (instance_max_turns (self_game_instance m))) m)
   \<and> (fst (does_game_proceed m) \<longrightarrow> snd (does_game_proceed m) = m)
   \<and> self_finished (snd (does_game_proceed m)) =
        (self_finished m \<or> (self_invalid_format m = [] \<and> self_goals_achieved m = self_goals_required m))"
  by (simp add: does_game_proceed_def log_event_def)

theorem C6_does_game_proceed_witness:
  "fst (does_game_proceed fresh_master)
   \<and> snd (does_game_proceed fresh_master) = fresh_master
   \<and> \<not> fst (does_game_proceed won_master)
   \<and> self_finished (snd (does_game_proceed won_master))
   \<and> \<not> fst (does_game_proceed flagged_master)
   \<and> \<not> self_finished (snd (does_game_proceed flagged_master))
   \<and> \<not> fst (does_game_proceed late_master)
   \<and> snd (does_game_proceed late_master) = log_event (Turn_limit_reached 10) late_master"
proof -
  have f: "self_invalid_format fresh_master = []" "self_goals_achieved fresh_master = {}"
    "self_goals_required fresh_master = {''A'', ''B''}" "self_turns fresh_master = []"
    "instance_max_turns (self_game_instance fresh_master) = 10" "\<not> self_finished fresh_master"
    by (simp_all add: fresh_master_def on_setup_def example_instance_def)
  have w: "self_invalid_format won_master = []"
    "self_goals_achieved won_master = self_goals_required won_master"
    by (simp_all add: won_master_def f)
  have g: "self_invalid_format flagged_master \<noteq> []" "\<not> self_finished flagged_master"
    by (simp_all add: flagged_master_def won_master_def f)
  have l: "self_invalid_format late_master = []"
    "self_goals_achieved late_master \<noteq> self_goals_required late_master"
    "instance_max_turns (self_game_instance late_master) = 10" "length (self_turns late_master) = 10"
    by (simp_all add: late_master_def f)
  show ?thesis
    using C6_does_game_proceed[of fresh_master] C6_does_game_proceed[of won_master]
      C6_does_game_proceed[of flagged_master] C6_does_game_proceed[of late_master]
    by (simp add: f w g l log_event_def)
qed

text \<open>\<open>contains\<close> is the substring test; the hooks other than validation keep the flag.\<close>

lemma contains_iff: "contains s sub = (\<exists>pre post. s = pre @ sub @ post)"
proof (induction s)
  case Nil
  show ?case by auto
next
  case (Cons c cs)
  have "startswith (c # cs) sub = (\<exists>post. c # cs = sub @ post)"
    unfolding startswith_def by (metis append_eq_conv_conj append_take_drop_id)
  moreover have "(\<exists>pre post. c # cs = pre @ sub @ post) =
      ((\<exists>post. c # cs = sub @ post) \<or> (\<exists>pre post. cs = pre @ sub @ post))"
  proof
    assume "\<exists>pre post. c # cs = pre @ sub @ post"
    then obtain pre post where e: "c # cs = pre @ sub @ post" by blast
    show "(\<exists>post. c # cs = sub @ post) \<or> (\<exists>pre post. cs = pre @ sub @ post)"
    proof (cases pre)
      case Nil
      with e show ?thesis by auto
    next
      case (Cons a pre')
      with e have "cs = pre' @ sub @ post" by simp
      then show ?thesis by blast
    qed
  next
    assume "(\<exists>post. c # cs = sub @ post) \<or> (\<exists>pre post. cs = pre @ sub @ post)"
    then show "\<exists>pre post. c # cs = pre @ sub @ post"
    proof
      assume "\<exists>post. c # cs = sub @ post"
      then show ?thesis by (metis append_Nil)
    next
      assume "\<exists>pre post. cs = pre @ sub @ post"
      then obtain pre post where "cs = pre @ sub @ post" by blast
      then have "c # cs = (c # pre) @ sub @ post" by simp
      then show ?thesis by blast
    qed
  qed
  ultimately show ?case using Cons.IH by simp
qed

lemma invalid_format_kept:
  "self_invalid_format (snd (does_game_proceed m)) = self_invalid_format m"
  "self_invalid_format (on_after_game m) = self_invalid_format m"
  "on_after_turn process_action m = Inr m' \<Longrightarrow> self_invalid_format m' = self_invalid_format m"
  "on_parse_response m p u = Inr (r, m') \<Longrightarrow> self_invalid_format m' = self_invalid_format m"
  by (auto simp: does_game_proceed_def on_after_game_def on_after_turn_def on_parse_response_def
        log_event_def add_message_def Let_def
        split: if_splits prod.splits option.splits list.splits)

text \<open>
  C7. For the player of the game, validation returns false with the flag set to
  command_tag_missing exactly when the response does not begin with the command marker;
  otherwise it returns false with the flag set to next_actions_missing exactly when the
  variant is plan and the response does not contain the plan marker; whenever it returns
  true it changes nothing. A flag that is set is not cleared by validation, nor changed by
  the continuation check, the step after the turn or the end of the game, and once it is
  set the continuation check fails, so that the game asks for no further response.
\<close>

theorem C7_validate_player_response:
  assumes "p = self_player m"
  shows "(\<not> fst (validate_player_response m p u)
            \<and> self_invalid_format (snd (validate_player_response m p u)) = ''command_tag_missing'')
           = (\<not> (\<exists>rest. u = CHR ''>'' # rest))
       \<and> ((\<exists>rest. u = CHR ''>'' # rest) \<longrightarrow>
            (\<not> fst (validate_player_response m p u)
               \<and> self_invalid_format (snd (validate_player_response m p u)) = ''next_actions_missing'')
            = (self_if_variant m = ''plan''
               \<and> \<not> (\<exists>pre post. u = pre @ CHR 0x0A # ''Next actions:'' @ post)))
       \<and> fst (validate_player_response m p u)
           = ((\<exists>rest. u = CHR ''>'' # rest)
              \<and> \<not> (self_if_variant m = ''plan''
                     \<and> \<not> (\<exists>pre post. u = pre @ CHR 0x0A # ''Next actions:'' @ post)))
       \<and> (fst (validate_player_response m p u) \<longrightarrow> snd (validate_player_response m p u) = m)
       \<and> (self_invalid_format m \<noteq> [] \<longrightarrow>
            self_invalid_format (snd (validate_player_response m p u)) \<noteq> [])
       \<and> self_invalid_format (snd (does_game_proceed m)) = self_invalid_format m
       \<and> self_invalid_format (on_after_game m) = self_invalid_format m
       \<and> (on_after_turn process_action m = Inr m' \<longrightarrow>
            self_invalid_format m' = self_invalid_format m)
       \<and> (self_invalid_format m \<noteq> [] \<longrightarrow> \<not> fst (does_game_proceed m))"
proof -
  have s: "startswith u command_tag = (\<exists>rest. u = CHR ''>'' # rest)"
    by (cases u) (auto simp: startswith_def command_tag_def)
  have c: "contains u next_actions_tag = (\<exists>pre post. u = pre @ CHR 0x0A # ''Next actions:'' @ post)"
    unfolding contains_iff by (simp add: next_actions_tag_def)
  have k: "on_after_turn process_action m = Inr m' \<longrightarrow>
            self_invalid_format m' = self_invalid_format m"
    using invalid_format_kept(3) by blast
  have g: "self_invalid_format m \<noteq> [] \<longrightarrow> \<not> fst (does_game_proceed m)"
    by (simp add: does_game_proceed_def)
  show ?thesis
    unfolding s[symmetric] c[symmetric] invalid_format_kept(1,2)
    using assms k g by (simp add: validate_player_response_def)
qed

theorem C7_validate_player_response_witness:
  "\<not> fst (validate_player_response plan_master (Player ''player'') ''look'')
   \<and> self_invalid_format (snd (validate_player_response plan_master (Player ''player'') ''look''))
       = ''command_tag_missing''
   \<and> \<not> fst (validate_player_response plan_master (Player ''player'') ''>look'')
   \<and> self_invalid_format (snd (validate_player_response plan_master (Player ''player'') ''>look''))
       = ''next_actions_missing''
   \<and> fst (validate_player_response fresh_master (Player ''player'') ''>look'')
   \<and> snd (validate_player_response fresh_master (Player ''player'') ''>look'') = fresh_master"
proof -
  have p: "Player ''player'' = self_player plan_master" "Player ''player'' = self_player fresh_master"
    by (simp_all add: plan_master_def fresh_master_def on_setup_def)
  have v: "(self_if_variant plan_master = ''plan'') = True"
    "(self_if_variant fresh_master = ''plan'') = False"
    by (simp_all add: plan_master_def fresh_master_def on_setup_def plan_instance_def
          example_instance_def)
  have a: "(\<exists>rest. ''look'' = CHR ''>'' # rest) = False"
    "(\<exists>rest. ''>look'' = CHR ''>'' # rest) = True"
    by simp_all
  have n: "(\<exists>pre post. ''>look'' = pre @ CHR 0x0A # ''Next actions:'' @ post) = False"
  proof -
    have False if "''>look'' = pre @ CHR 0x0A # ''Next actions:'' @ post" for pre post
    proof -
      from that have "length ''>look'' = length (pre @ CHR 0x0A # ''Next actions:'' @ post)"
        by (rule arg_cong)
      then show False by simp
    qed
    then show ?thesis by blast
  qed
  note t1 = C7_validate_player_response[OF p(1), of "''look''", unfolded a v]
  note t2 = C7_validate_player_response[OF p(1), of "''>look''", unfolded a n v]
  note t3 = C7_validate_player_response[OF p(2), of "''>look''", unfolded a n v]
  have r1: "\<not> fst (validate_player_response plan_master (Player ''player'') ''look'')
     \<and> self_invalid_format (snd (validate_player_response plan_master (Player ''player'') ''look''))
       = ''command_tag_missing''"
    using t1[THEN conjunct1] by (simp only: simp_thms)
  have r2: "\<not> fst (validate_player_response plan_master (Player ''player'') ''>look'')
     \<and> self_invalid_format (snd (validate_player_response plan_master (Player ''player'') ''>look''))
       = ''next_actions_missing''"
    using t2[THEN conjunct2, THEN conjunct1] by (simp only: simp_thms)
  have r3: "fst (validate_player_response fresh_master (Player ''player'') ''>look'')"
    using t3[THEN conjunct2, THEN conjunct2, THEN conjunct1] by (simp only: simp_thms)
  have r4: "snd (validate_player_response fresh_master (Player ''player'') ''>look'') = fresh_master"
    using t3[THEN conjunct2, THEN conjunct2, THEN conjunct2, THEN conjunct1] r3
    by (simp only: simp_thms)
  show ?thesis using r1 r2 r3 r4 by (simp only: simp_thms)
qed

text \<open>The episode whose first response fails validation.\<close>

lemma goal_scores_aborted_turn:
  "goal_scores [Invalid_format c, Invalid_format c, Game_result g f] = []"
  by (simp add: goal_scores_def)

lemma aborted_first_turn:
  assumes "\<not> startswith utterance command_tag" and "fst (does_game_proceed m)"
      and "self_interactions m = []"
  shows "run_episode process_action (utterance # rest) m =
           Some (Inr ((on_after_game (snd (does_game_proceed (snd (does_game_proceed
              ((log_next_turn m)\<lparr>self_success := False,
                 self_invalid_format := ''command_tag_missing''\<rparr>))))))))"
    and "self_interactions (on_after_game (snd (does_game_proceed (snd (does_game_proceed
              ((log_next_turn m)\<lparr>self_success := False,
                 self_invalid_format := ''command_tag_missing''\<rparr>)))))) =
           [[Invalid_format ''command_tag_missing'', Invalid_format ''command_tag_missing'',
             Game_result (list_of (self_goals_achieved m)) (self_finished m)]]"
proof -
  define m1 where "m1 = (log_next_turn m)\<lparr>self_success := False,
                 self_invalid_format := ''command_tag_missing''\<rparr>"
  have p: "does_game_proceed m = (True, m)"
    using assms(2) by (auto simp: does_game_proceed_def split: if_splits)
  have v: "validate_player_response (log_next_turn m) (self_player m) utterance = (False, m1)"
    using assms(1) by (simp add: validate_player_response_def log_next_turn_def m1_def)
  have d1: "does_game_proceed m1 = (False, log_event (Invalid_format ''command_tag_missing'') m1)"
    by (simp add: does_game_proceed_def m1_def)
  define m2 where "m2 = log_event (Invalid_format ''command_tag_missing'') m1"
  have f2: "self_invalid_format m2 = ''command_tag_missing''"
    by (simp add: m2_def m1_def log_event_def)
  have d2: "does_game_proceed m2 = (False, log_event (Invalid_format ''command_tag_missing'') m2)"
    by (simp add: does_game_proceed_def f2)
  have t: "turn_cycle process_action utterance m = Inr m2"
    by (simp add: turn_cycle_def v on_after_turn_def d1 m2_def)
  show "run_episode process_action (utterance # rest) m =
           Some (Inr ((on_after_game (snd (does_game_proceed (snd (does_game_proceed
              ((log_next_turn m)\<lparr>self_success := False,
                 self_invalid_format := ''command_tag_missing''\<rparr>))))))))"
    unfolding m1_def[symmetric] d1 snd_conv m2_def[symmetric]
    by (subst run_episode.simps, simp add: p t, subst run_episode.simps, simp add: d2)
  show "self_interactions (on_after_game (snd (does_game_proceed (snd (does_game_proceed
              ((log_next_turn m)\<lparr>self_success := False,
                 self_invalid_format := ''command_tag_missing''\<rparr>)))))) =
           [[Invalid_format ''command_tag_missing'', Invalid_format ''command_tag_missing'',
             Game_result (list_of (self_goals_achieved m)) (self_finished m)]]"
    unfolding m1_def[symmetric] d1 snd_conv m2_def[symmetric] d2
    by (simp add: on_after_game_def log_event_def m2_def m1_def log_next_turn_def assms(3))
qed

text \<open>
  C4. An episode whose first response does not begin with the command marker ends after
  one turn; the turn's record holds the invalid_format events and the game result, and no
  goal_status event. Scoring this log does not terminate normally: compute_scores raises
  KeyError for the key goal_score, so no score is produced.
\<close>

theorem C4_aborted_first_turn_not_scored:
  assumes "\<not> startswith utterance command_tag" and "fst (does_game_proceed m)"
      and "self_interactions m = []"
  shows "\<exists>m'. run_episode process_action (utterance # rest) m = Some (Inr m')
           \<and> self_interactions m' =
               [[Invalid_format ''command_tag_missing'', Invalid_format ''command_tag_missing'',
                 Game_result (list_of (self_goals_achieved m)) (self_finished m)]]
           \<and> compute_scores (self_interactions m') = Inl (KeyError ''goal_score'')"
proof -
  have "compute_scores [[Invalid_format ''command_tag_missing'', Invalid_format ''command_tag_missing'',
                 Game_result (list_of (self_goals_achieved m)) (self_finished m)]]
          = Inl (KeyError ''goal_score'')"
    by (rule compute_scores_unscored) (simp add: has_goal_status_def goal_scores_aborted_turn)
  with aborted_first_turn(1)[OF assms, of process_action rest] aborted_first_turn(2)[OF assms]
  show ?thesis by simp
qed

theorem C4_aborted_first_turn_not_scored_witness:
  "\<exists>m'. run_episode no_interpreter [''look around'']
           (on_before_game ''You are in a kitchen.'' fresh_master) = Some (Inr m')
      \<and> self_interactions m' =
          [[Invalid_format ''command_tag_missing'', Invalid_format ''command_tag_missing'',
            Game_result [] False]]
      \<and> compute_scores (self_interactions m') = Inl (KeyError ''goal_score'')"
proof -
  define m where "m = on_before_game ''You are in a kitchen.'' fresh_master"
  have a: "\<not> startswith ''look around'' command_tag"
    by (simp add: startswith_def command_tag_def)
  have b: "fst (does_game_proceed m)"
    by (simp add: m_def on_before_game_def add_message_def fresh_master_def on_setup_def
          example_instance_def does_game_proceed_def)
  have c: "self_interactions m = []"
    by (simp add: m_def on_before_game_def add_message_def fresh_master_def on_setup_def)
  have d: "list_of (self_goals_achieved m) = []" "self_finished m = False"
    by (simp_all add: m_def on_before_game_def add_message_def fresh_master_def on_setup_def
          list_of_def)
  note r = C4_aborted_first_turn_not_scored[OF a b c, of no_interpreter "[]", unfolded d]
  show ?thesis using r unfolding m_def .
qed

end
